theory Spec2Isabelle
  imports Main "HOL-Library.Word"
begin

unbundle bit_operations_syntax

section \<open>The banked memory (src/src/memory/memory.c)\<close>

text \<open>
  The file-scope state of memory.c as one record. \<open>memory\<close> is the 64 KiB array, indexed
  by a 16-bit address. The three ROM images are indexed by a C \<open>int\<close>, because
  \<open>memory_init\<close> indexes \<open>kernal_rom\<close> with the (negative) constants
  \<open>0x1FFA - 0xE000\<close> .. \<open>0x1FFF - 0xE000\<close>. The four banking flags are C \<open>int\<close>s that
  only ever hold a truth value. An entry of \<open>memory_read_map\<close> is a pointer into one
  of the four arrays: the array and the index it points at.
\<close>

datatype page_ptr =
    Memory_at "16 word"
  | Basic_rom_at int
  | Kernal_rom_at int
  | Char_rom_at int

record memory_state =
  memory :: "16 word \<Rightarrow> 8 word"
  basic_rom_enabled :: bool
  kernal_rom_enabled :: bool
  char_rom_enabled :: bool
  io_enabled :: bool
  basic_rom :: "int \<Rightarrow> 8 word"
  kernal_rom :: "int \<Rightarrow> 8 word"
  char_rom :: "int \<Rightarrow> 8 word"
  memory_read_map :: "8 word \<Rightarrow> page_ptr"

text \<open>\<open>for (int i = lo; i <= hi; i++) map[i] = f i\<close>, the loop of update_memory_maps.\<close>

definition for_pages :: "nat \<Rightarrow> nat \<Rightarrow> (nat \<Rightarrow> page_ptr) \<Rightarrow> (8 word \<Rightarrow> page_ptr) \<Rightarrow> 8 word \<Rightarrow> page_ptr" where
  "for_pages lo hi f m = fold (\<lambda>i m'. m'(of_nat i := f i)) [lo ..< Suc hi] m"

definition update_memory_maps :: "memory_state \<Rightarrow> memory_state" where
  "update_memory_maps s =
    (let m0 = for_pages 0 255 (\<lambda>i. Memory_at (push_bit 8 (of_nat i))) (memory_read_map s);
         m1 = (if basic_rom_enabled s
               then for_pages 0xA0 0xBF (\<lambda>i. Basic_rom_at (push_bit 8 (int i - 0xA0))) m0
               else m0);
         m2 = (if kernal_rom_enabled s
               then for_pages 0xE0 0xFF (\<lambda>i. Kernal_rom_at (push_bit 8 (int i - 0xE0))) m1
               else m1);
         m3 = (if io_enabled s then m2
               else if char_rom_enabled s
               then for_pages 0xD0 0xDF (\<lambda>i. Char_rom_at (push_bit 8 (int i - 0xD0))) m2
               else m2)
     in s\<lparr>memory_read_map := m3\<rparr>)"

text \<open>
  memory_init. Its six vector stores are written as in the source. Their indices,
  \<open>0x1FFA - 0xE000\<close> and so on, are negative: in C the stores fall outside the 8192
  bytes of \<open>kernal_rom\<close>, and which object they hit is not defined. Here they stay in
  the function that stands for the image, at indices that no read of the image reaches;
  the bytes read at \<open>$FFFA..$FFFF\<close> are the \<open>0xEA\<close> fill. The previous state is
  overwritten throughout.
\<close>

definition memory_init :: "memory_state \<Rightarrow> memory_state" where
  "memory_init s0 =
    update_memory_maps
      (s0\<lparr>memory := (\<lambda>_. 0)(0x0000 := 0x2F, 0x0001 := 0x37),
          basic_rom := (\<lambda>_. 0xEA),
          kernal_rom := (\<lambda>_. 0xEA)
            (0x1FFC - 0xE000 := 0x00, 0x1FFD - 0xE000 := 0xE0,
             0x1FFA - 0xE000 := 0x43, 0x1FFB - 0xE000 := 0xFE,
             0x1FFE - 0xE000 := 0x48, 0x1FFF - 0xE000 := 0xFF),
          char_rom := (\<lambda>_. 0x00),
          basic_rom_enabled := True,
          kernal_rom_enabled := True,
          char_rom_enabled := True,
          io_enabled := True\<rparr>)"

text \<open>\<open>memory_read_map[page][offset]\<close>: the byte \<open>offset\<close> places after the pointer.\<close>

definition deref :: "memory_state \<Rightarrow> page_ptr \<Rightarrow> 8 word \<Rightarrow> 8 word" where
  "deref s p offset =
    (case p of
       Memory_at b \<Rightarrow> memory s (b + ucast offset)
     | Basic_rom_at b \<Rightarrow> basic_rom s (b + uint offset)
     | Kernal_rom_at b \<Rightarrow> kernal_rom s (b + uint offset)
     | Char_rom_at b \<Rightarrow> char_rom s (b + uint offset))"

definition memory_read :: "memory_state \<Rightarrow> 16 word \<Rightarrow> 8 word" where
  "memory_read s address =
    (let page = (ucast (drop_bit 8 address) :: 8 word);
         offset = (ucast (address AND 0xFF) :: 8 word)
     in if page \<ge> 0xD0 \<and> page \<le> 0xDF \<and> io_enabled s
        then memory s address
        else deref s (memory_read_map s page) offset)"

definition memory_write :: "16 word \<Rightarrow> 8 word \<Rightarrow> memory_state \<Rightarrow> memory_state" where
  "memory_write address value s =
    (if basic_rom_enabled s \<and> address \<ge> 0xA000 \<and> address \<le> 0xBFFF then s
     else if kernal_rom_enabled s \<and> address \<ge> 0xE000 \<and> address \<le> 0xFFFF then s
     else if address \<ge> 0xD000 \<and> address \<le> 0xDFFF \<and> io_enabled s
       then s\<lparr>memory := (memory s)(address := value)\<rparr>
     else if address \<ge> 0xD000 \<and> address \<le> 0xDFFF \<and> char_rom_enabled s then s
     else if address = 0x0001 then
       (let old_value = memory s 0x0001;
            s1 = s\<lparr>memory := (memory s)(0x0001 := value),
                   kernal_rom_enabled := (value AND 0x02 \<noteq> 0),
                   basic_rom_enabled := (value AND 0x03 \<noteq> 0),
                   io_enabled := (value AND 0x04 \<noteq> 0),
                   char_rom_enabled := (value AND 0x04 = 0 \<and> value AND 0x03 \<noteq> 0)\<rparr>
        in if old_value AND 0x07 \<noteq> value AND 0x07 then update_memory_maps s1 else s1)
     else s\<lparr>memory := (memory s)(address := value)\<rparr>)"

text \<open>
  memory_load. \<open>address + length\<close> is computed in \<open>int\<close> and does not wrap; the clipped
  length \<open>MEMORY_SIZE - address\<close> fits the 16-bit \<open>length\<close> because the clipping branch
  needs \<open>address > 0\<close>. \<open>memcpy\<close> stores \<open>data[i]\<close> at \<open>memory[address + i]\<close> for
  every \<open>i < length\<close>; the caller owes at least \<open>length\<close> bytes of \<open>data\<close>. The
  warning that the clipping branch prints is not part of the state.
\<close>

definition load_length :: "16 word \<Rightarrow> 16 word \<Rightarrow> nat" where
  "load_length address len =
    (if unat address + unat len > 65536 then 65536 - unat address else unat len)"

definition memory_load :: "16 word \<Rightarrow> 8 word list \<Rightarrow> 16 word \<Rightarrow> memory_state \<Rightarrow> memory_state" where
  "memory_load address data len s =
    s\<lparr>memory := (\<lambda>a. if address \<le> a \<and> unat a < unat address + load_length address len
                      then data ! (unat a - unat address)
                      else memory s a)\<rparr>"

section \<open>The CPU (src/src/cpu/cpu.h, src/src/cpu/cpu.c)\<close>

datatype AddressingMode =
    ADDR_IMPLIED
  | ADDR_ACCUMULATOR
  | ADDR_IMMEDIATE
  | ADDR_ZERO_PAGE
  | ADDR_ZERO_PAGE_X
  | ADDR_ZERO_PAGE_Y
  | ADDR_RELATIVE
  | ADDR_ABSOLUTE
  | ADDR_ABSOLUTE_X
  | ADDR_ABSOLUTE_Y
  | ADDR_INDIRECT
  | ADDR_INDEXED_INDIRECT
  | ADDR_INDIRECT_INDEXED

text \<open>
  The struct \<open>CPU\<close>; the field \<open>cpu.pc\<close> of the source is \<open>cpu_pc\<close> here, and so on.
  The seven flags are \<open>uint8_t\<close> fields, as in cpu.h.
\<close>

record CPU =
  cpu_pc :: "16 word"
  cpu_a :: "8 word"
  cpu_x :: "8 word"
  cpu_y :: "8 word"
  cpu_sp :: "8 word"
  cpu_c :: "8 word"
  cpu_z :: "8 word"
  cpu_i :: "8 word"
  cpu_d :: "8 word"
  cpu_b :: "8 word"
  cpu_v :: "8 word"
  cpu_n :: "8 word"

text \<open>
  What the program prints, and the whole state the CPU works on: the static \<open>cpu\<close>, the
  static counter \<open>cycles\<close>, the statics of memory.c, the bytes waiting on standard
  input and everything printed so far.
\<close>

datatype printed =
    Put_char "8 word"
  | Unimplemented_opcode "8 word" "16 word"
  | Unimplemented_kernal "16 word"

record machine = CPU +
  cycles :: "32 word"
  mem :: memory_state
  stdin :: "8 word list"
  stdout :: "printed list"

text \<open>
  The three lookup tables are file-scope arrays that only \<open>cpu_init\<close> writes: a
  \<open>memset\<close> with the default, then one store per implemented opcode. They are given
  here with the contents \<open>cpu_init\<close> leaves in them, so every statement about
  \<open>cpu_step\<close> is about a CPU on which \<open>cpu_init\<close> has run.
\<close>

definition opcode_sizes :: "8 word \<Rightarrow> 8 word" where
  "opcode_sizes = (\<lambda>_. 1)
    (0xA9 := 2, 0xA5 := 2, 0xB5 := 2, 0xAD := 3, 0xBD := 3, 0xB9 := 3, 0xA1 := 2, 0xB1 := 2,
     0xA2 := 2, 0xA6 := 2, 0xB6 := 2, 0xAE := 3, 0xBE := 3, 0xA0 := 2, 0xA4 := 2, 0xB4 := 2,
     0xAC := 3, 0xBC := 3, 0x85 := 2, 0x95 := 2, 0x8D := 3, 0x9D := 3, 0x99 := 3, 0x81 := 2,
     0x91 := 2, 0x86 := 2, 0x96 := 2, 0x8E := 3, 0x84 := 2, 0x94 := 2, 0x8C := 3, 0x4C := 3,
     0x6C := 3, 0x20 := 3, 0x60 := 1, 0xE8 := 1, 0xC8 := 1, 0xCA := 1, 0x88 := 1, 0xC9 := 2,
     0xC5 := 2, 0xD5 := 2, 0xCD := 3, 0xDD := 3, 0xD9 := 3, 0xC1 := 2, 0xD1 := 2, 0xF0 := 2,
     0xD0 := 2, 0xB0 := 2, 0x90 := 2, 0x30 := 2, 0x10 := 2, 0x70 := 2, 0x50 := 2)"

definition opcode_cycles :: "8 word \<Rightarrow> 8 word" where
  "opcode_cycles = (\<lambda>_. 2)
    (0xA9 := 2, 0xA5 := 3, 0xB5 := 4, 0xAD := 4, 0xBD := 4, 0xB9 := 4, 0xA1 := 6, 0xB1 := 5,
     0xA2 := 2, 0xA6 := 3, 0xB6 := 4, 0xAE := 4, 0xBE := 4, 0xA0 := 2, 0xA4 := 3, 0xB4 := 4,
     0xAC := 4, 0xBC := 4, 0x85 := 3, 0x95 := 4, 0x8D := 4, 0x9D := 5, 0x99 := 5, 0x81 := 6,
     0x91 := 6, 0x86 := 3, 0x96 := 4, 0x8E := 4, 0x84 := 3, 0x94 := 4, 0x8C := 4, 0x4C := 3,
     0x6C := 5, 0x20 := 6, 0x60 := 6, 0xE8 := 2, 0xC8 := 2, 0xCA := 2, 0x88 := 2, 0xC9 := 2,
     0xC5 := 3, 0xD5 := 4, 0xCD := 4, 0xDD := 4, 0xD9 := 4, 0xC1 := 6, 0xD1 := 5, 0xF0 := 2,
     0xD0 := 2, 0xB0 := 2, 0x90 := 2, 0x30 := 2, 0x10 := 2, 0x70 := 2, 0x50 := 2)"

definition opcode_modes :: "8 word \<Rightarrow> AddressingMode" where
  "opcode_modes = (\<lambda>_. ADDR_IMPLIED)
    (0xA9 := ADDR_IMMEDIATE, 0xA5 := ADDR_ZERO_PAGE, 0xB5 := ADDR_ZERO_PAGE_X,
     0xAD := ADDR_ABSOLUTE, 0xBD := ADDR_ABSOLUTE_X, 0xB9 := ADDR_ABSOLUTE_Y,
     0xA1 := ADDR_INDEXED_INDIRECT, 0xB1 := ADDR_INDIRECT_INDEXED, 0xA2 := ADDR_IMMEDIATE,
     0xA6 := ADDR_ZERO_PAGE, 0xB6 := ADDR_ZERO_PAGE_Y, 0xAE := ADDR_ABSOLUTE,
     0xBE := ADDR_ABSOLUTE_Y, 0xA0 := ADDR_IMMEDIATE, 0xA4 := ADDR_ZERO_PAGE,
     0xB4 := ADDR_ZERO_PAGE_X, 0xAC := ADDR_ABSOLUTE, 0xBC := ADDR_ABSOLUTE_X,
     0x85 := ADDR_ZERO_PAGE, 0x95 := ADDR_ZERO_PAGE_X, 0x8D := ADDR_ABSOLUTE,
     0x9D := ADDR_ABSOLUTE_X, 0x99 := ADDR_ABSOLUTE_Y, 0x81 := ADDR_INDEXED_INDIRECT,
     0x91 := ADDR_INDIRECT_INDEXED, 0x86 := ADDR_ZERO_PAGE, 0x96 := ADDR_ZERO_PAGE_Y,
     0x8E := ADDR_ABSOLUTE, 0x84 := ADDR_ZERO_PAGE, 0x94 := ADDR_ZERO_PAGE_X,
     0x8C := ADDR_ABSOLUTE, 0x4C := ADDR_ABSOLUTE, 0x6C := ADDR_INDIRECT,
     0x20 := ADDR_ABSOLUTE, 0x60 := ADDR_IMPLIED, 0xE8 := ADDR_IMPLIED,
     0xC8 := ADDR_IMPLIED, 0xCA := ADDR_IMPLIED, 0x88 := ADDR_IMPLIED,
     0xC9 := ADDR_IMMEDIATE, 0xC5 := ADDR_ZERO_PAGE, 0xD5 := ADDR_ZERO_PAGE_X,
     0xCD := ADDR_ABSOLUTE, 0xDD := ADDR_ABSOLUTE_X, 0xD9 := ADDR_ABSOLUTE_Y,
     0xC1 := ADDR_INDEXED_INDIRECT, 0xD1 := ADDR_INDIRECT_INDEXED, 0xF0 := ADDR_RELATIVE,
     0xD0 := ADDR_RELATIVE, 0xB0 := ADDR_RELATIVE, 0x90 := ADDR_RELATIVE,
     0x30 := ADDR_RELATIVE, 0x10 := ADDR_RELATIVE, 0x70 := ADDR_RELATIVE,
     0x50 := ADDR_RELATIVE)"

definition cpu_reset :: "machine \<Rightarrow> machine" where
  "cpu_reset s =
    (let reset_vector = ucast (memory_read (mem s) 0xFFFC)
                        OR push_bit 8 (ucast (memory_read (mem s) (0xFFFC + 1)))
     in s\<lparr>cpu_pc := reset_vector, cpu_sp := 0xFD, cpu_i := 1, cycles := 0\<rparr>)"

definition cpu_init :: "machine \<Rightarrow> machine" where
  "cpu_init s =
    cpu_reset
      (s\<lparr>cpu_pc := 0, cpu_a := 0, cpu_x := 0, cpu_y := 0, cpu_sp := 0xFD,
         cpu_c := 0, cpu_z := 0, cpu_i := 1, cpu_d := 0, cpu_b := 0, cpu_v := 0, cpu_n := 0\<rparr>)"

definition cpu_set_pc :: "16 word \<Rightarrow> machine \<Rightarrow> machine" where
  "cpu_set_pc address s = s\<lparr>cpu_pc := address\<rparr>"

text \<open>\<open>STACK_PAGE + cpu.sp\<close> is \<open>0x0100 + sp\<close>; \<open>cpu.sp--\<close> and \<open>cpu.sp++\<close> wrap at 8 bits.\<close>

definition cpu_push_byte :: "8 word \<Rightarrow> machine \<Rightarrow> machine" where
  "cpu_push_byte value s =
    s\<lparr>mem := memory_write (0x0100 + ucast (cpu_sp s)) value (mem s),
      cpu_sp := cpu_sp s - 1\<rparr>"

definition cpu_pull_byte :: "machine \<Rightarrow> 8 word \<times> machine" where
  "cpu_pull_byte s =
    (let s1 = s\<lparr>cpu_sp := cpu_sp s + 1\<rparr>
     in (memory_read (mem s1) (0x0100 + ucast (cpu_sp s1)), s1))"

definition cpu_push_word :: "16 word \<Rightarrow> machine \<Rightarrow> machine" where
  "cpu_push_word value s =
    cpu_push_byte (ucast (value AND 0xFF))
      (cpu_push_byte (ucast (drop_bit 8 value AND 0xFF)) s)"

definition cpu_pull_word :: "machine \<Rightarrow> 16 word \<times> machine" where
  "cpu_pull_word s =
    (let (low, s1) = cpu_pull_byte s;
         (high, s2) = cpu_pull_byte s1
     in (push_bit 8 (ucast high) OR ucast low, s2))"

definition cpu_get_operand_address :: "AddressingMode \<Rightarrow> machine \<Rightarrow> 16 word" where
  "cpu_get_operand_address mode s =
    (let rd = memory_read (mem s); pc = cpu_pc s in
     case mode of
       ADDR_IMPLIED \<Rightarrow> 0
     | ADDR_ACCUMULATOR \<Rightarrow> 0
     | ADDR_IMMEDIATE \<Rightarrow> pc + 1
     | ADDR_ZERO_PAGE \<Rightarrow> ucast (rd (pc + 1))
     | ADDR_ZERO_PAGE_X \<Rightarrow> ucast (rd (pc + 1) + cpu_x s)
     | ADDR_ZERO_PAGE_Y \<Rightarrow> ucast (rd (pc + 1) + cpu_y s)
     | ADDR_RELATIVE \<Rightarrow> pc + 2 + scast (rd (pc + 1))
     | ADDR_ABSOLUTE \<Rightarrow> ucast (rd (pc + 1)) OR push_bit 8 (ucast (rd (pc + 2)))
     | ADDR_ABSOLUTE_X \<Rightarrow>
         (ucast (rd (pc + 1)) OR push_bit 8 (ucast (rd (pc + 2)))) + ucast (cpu_x s)
     | ADDR_ABSOLUTE_Y \<Rightarrow>
         (ucast (rd (pc + 1)) OR push_bit 8 (ucast (rd (pc + 2)))) + ucast (cpu_y s)
     | ADDR_INDIRECT \<Rightarrow>
         (let ptr = ucast (rd (pc + 1)) OR push_bit 8 (ucast (rd (pc + 2)))
          in if ptr AND 0xFF = 0xFF
             then ucast (rd ptr) OR push_bit 8 (ucast (rd (ptr AND 0xFF00)))
             else ucast (rd ptr) OR push_bit 8 (ucast (rd (ptr + 1))))
     | ADDR_INDEXED_INDIRECT \<Rightarrow>
         (let zp = rd (pc + 1) + cpu_x s
          in ucast (rd (ucast zp)) OR push_bit 8 (ucast (rd (ucast (zp + 1)))))
     | ADDR_INDIRECT_INDEXED \<Rightarrow>
         (let zp = rd (pc + 1)
          in (ucast (rd (ucast zp)) OR push_bit 8 (ucast (rd (ucast (zp + 1)))))
             + ucast (cpu_y s)))"

text \<open>
  \<open>getchar\<close> takes the next byte of standard input, or returns \<open>EOF\<close> (-1) when there
  is none. \<open>kbhit\<close> (its \<open>select\<close> branch) asks whether a byte is waiting.
\<close>

definition getchar :: "machine \<Rightarrow> int \<times> machine" where
  "getchar s = (case stdin s of [] \<Rightarrow> (- 1, s) | ch # rest \<Rightarrow> (uint ch, s\<lparr>stdin := rest\<rparr>))"

definition kbhit :: "machine \<Rightarrow> bool" where
  "kbhit s = (stdin s \<noteq> [])"

text \<open>
  cpu_emulate_kernal: the \<open>switch\<close> on the routine's address, then the emulated RTS.
\<close>

definition cpu_emulate_kernal_switch :: "16 word \<Rightarrow> machine \<Rightarrow> machine" where
  "cpu_emulate_kernal_switch address s =
    (if address = 0xFFD2 then s\<lparr>stdout := stdout s @ [Put_char (cpu_a s)]\<rparr>
     else if address = 0xFFCF then
       (let (ch, s') = getchar s in s'\<lparr>cpu_a := word_of_int ch\<rparr>)
     else if address = 0xFFE4 then
       (let (ch, s') = (if kbhit s then getchar s else (- 1, s))
        in s'\<lparr>cpu_a := (if ch = - 1 then 0 else word_of_int ch)\<rparr>)
     else s\<lparr>stdout := stdout s @ [Unimplemented_kernal address]\<rparr>)"

definition cpu_emulate_kernal :: "16 word \<Rightarrow> machine \<Rightarrow> machine" where
  "cpu_emulate_kernal address s =
    (let s1 = cpu_emulate_kernal_switch address s;
         (w, s2) = cpu_pull_word s1
     in s2\<lparr>cpu_pc := w + 1\<rparr>)"

text \<open>
  The \<open>switch\<close> of cpu_step: the state after the instruction and the value of the local
  \<open>size\<close> (here \<open>sz\<close>), which the jumps set to 0.
\<close>

definition set_zn :: "8 word \<Rightarrow> machine \<Rightarrow> machine" where
  "set_zn r s = s\<lparr>cpu_z := of_bool (r = 0), cpu_n := of_bool (r AND 0x80 \<noteq> 0)\<rparr>"

definition branch :: "bool \<Rightarrow> 16 word \<Rightarrow> 8 word \<Rightarrow> machine \<Rightarrow> machine \<times> 8 word" where
  "branch taken address sz s = (if taken then (s\<lparr>cpu_pc := address\<rparr>, 0) else (s, sz))"

definition cpu_step_switch :: "8 word \<Rightarrow> 16 word \<Rightarrow> 8 word \<Rightarrow> machine \<Rightarrow> machine \<times> 8 word" where
  "cpu_step_switch opcode address sz s =
    (if opcode \<in> {0xA9, 0xA5, 0xB5, 0xAD, 0xBD, 0xB9, 0xA1, 0xB1} then
       (let r = memory_read (mem s) address in (set_zn r (s\<lparr>cpu_a := r\<rparr>), sz))
     else if opcode \<in> {0xA2, 0xA6, 0xB6, 0xAE, 0xBE} then
       (let r = memory_read (mem s) address in (set_zn r (s\<lparr>cpu_x := r\<rparr>), sz))
     else if opcode \<in> {0xA0, 0xA4, 0xB4, 0xAC, 0xBC} then
       (let r = memory_read (mem s) address in (set_zn r (s\<lparr>cpu_y := r\<rparr>), sz))
     else if opcode \<in> {0x85, 0x95, 0x8D, 0x9D, 0x99, 0x81, 0x91} then
       (s\<lparr>mem := memory_write address (cpu_a s) (mem s)\<rparr>, sz)
     else if opcode \<in> {0x86, 0x96, 0x8E} then
       (s\<lparr>mem := memory_write address (cpu_x s) (mem s)\<rparr>, sz)
     else if opcode \<in> {0x84, 0x94, 0x8C} then
       (s\<lparr>mem := memory_write address (cpu_y s) (mem s)\<rparr>, sz)
     else if opcode \<in> {0x4C, 0x6C} then (s\<lparr>cpu_pc := address\<rparr>, 0)
     else if opcode = 0x20 then
       (if address \<ge> 0xFF00
        then (cpu_emulate_kernal address (cpu_push_word (cpu_pc s + 2) s), 0)
        else ((cpu_push_word (cpu_pc s + 2 - 1) s)\<lparr>cpu_pc := address\<rparr>, 0))
     else if opcode = 0x60 then
       (let (w, s1) = cpu_pull_word s in (s1\<lparr>cpu_pc := w + 1\<rparr>, 0))
     else if opcode = 0xE8 then
       (let r = cpu_x s + 1 in (set_zn r (s\<lparr>cpu_x := r\<rparr>), sz))
     else if opcode = 0xC8 then
       (let r = cpu_y s + 1 in (set_zn r (s\<lparr>cpu_y := r\<rparr>), sz))
     else if opcode = 0xCA then
       (let r = cpu_x s - 1 in (set_zn r (s\<lparr>cpu_x := r\<rparr>), sz))
     else if opcode = 0x88 then
       (let r = cpu_y s - 1 in (set_zn r (s\<lparr>cpu_y := r\<rparr>), sz))
     else if opcode \<in> {0xC9, 0xC5, 0xD5, 0xCD, 0xDD, 0xD9, 0xC1, 0xD1} then
       (let value = memory_read (mem s) address;
            result = cpu_a s - value
        in (set_zn result (s\<lparr>cpu_c := of_bool (cpu_a s \<ge> value)\<rparr>), sz))
     else if opcode = 0xF0 then branch (cpu_z s \<noteq> 0) address sz s
     else if opcode = 0xD0 then branch (cpu_z s = 0) address sz s
     else if opcode = 0xB0 then branch (cpu_c s \<noteq> 0) address sz s
     else if opcode = 0x90 then branch (cpu_c s = 0) address sz s
     else if opcode = 0x30 then branch (cpu_n s \<noteq> 0) address sz s
     else if opcode = 0x10 then branch (cpu_n s = 0) address sz s
     else if opcode = 0x70 then branch (cpu_v s \<noteq> 0) address sz s
     else if opcode = 0x50 then branch (cpu_v s = 0) address sz s
     else if opcode = 0xAA then (set_zn (cpu_a s) (s\<lparr>cpu_x := cpu_a s\<rparr>), sz)
     else if opcode = 0xA8 then (set_zn (cpu_a s) (s\<lparr>cpu_y := cpu_a s\<rparr>), sz)
     else if opcode = 0x8A then (set_zn (cpu_x s) (s\<lparr>cpu_a := cpu_x s\<rparr>), sz)
     else if opcode = 0x98 then (set_zn (cpu_y s) (s\<lparr>cpu_a := cpu_y s\<rparr>), sz)
     else if opcode = 0xBA then (set_zn (cpu_sp s) (s\<lparr>cpu_x := cpu_sp s\<rparr>), sz)
     else if opcode = 0x9A then (s\<lparr>cpu_sp := cpu_x s\<rparr>, sz)
     else if opcode = 0x20 then (cpu_emulate_kernal address s, sz)
     else (s\<lparr>stdout := stdout s @ [Unimplemented_opcode opcode (cpu_pc s)]\<rparr>, sz))"

definition cpu_step :: "machine \<Rightarrow> machine" where
  "cpu_step s =
    (let opcode = memory_read (mem s) (cpu_pc s);
         mode = opcode_modes opcode;
         sz = opcode_sizes opcode;
         address = cpu_get_operand_address mode s;
         (s1, sz1) = cpu_step_switch opcode address sz s;
         s2 = (if sz1 > 0 then s1\<lparr>cpu_pc := cpu_pc s1 + ucast sz1\<rparr> else s1)
     in s2\<lparr>cycles := cycles s2 + ucast (opcode_cycles opcode)\<rparr>)"

text \<open>
  cpu_execute: \<open>target_cycles = cycles + num_cycles\<close> in 32 bits, then the \<open>while\<close>
  loop. The loop need not end, so its result is an option: \<open>None\<close> is a run that never
  returns.
\<close>

partial_function (option) cpu_execute_loop :: "32 word \<Rightarrow> machine \<Rightarrow> machine option" where
  "cpu_execute_loop target_cycles s =
    (if cycles s < target_cycles then cpu_execute_loop target_cycles (cpu_step s)
     else Some s)"

definition cpu_execute :: "32 word \<Rightarrow> machine \<Rightarrow> machine option" where
  "cpu_execute num_cycles s = cpu_execute_loop (cycles s + num_cycles) s"

section \<open>States and operation sequences the statements below use\<close>

text \<open>
  The statics before \<open>main\<close> runs: arrays and registers zeroed, the four banking flags
  1 (their initialisers), nothing read or printed yet. The 256 null pointers of
  \<open>memory_read_map\<close> are written \<open>Memory_at 0\<close>; memory_init overwrites every one of
  them before the first read.
\<close>

definition program_start :: machine where
  "program_start =
    \<lparr>cpu_pc = 0, cpu_a = 0, cpu_x = 0, cpu_y = 0, cpu_sp = 0,
     cpu_c = 0, cpu_z = 0, cpu_i = 0, cpu_d = 0, cpu_b = 0, cpu_v = 0, cpu_n = 0,
     cycles = 0,
     mem = \<lparr>memory = (\<lambda>_. 0),
            basic_rom_enabled = True, kernal_rom_enabled = True,
            char_rom_enabled = True, io_enabled = True,
            basic_rom = (\<lambda>_. 0), kernal_rom = (\<lambda>_. 0), char_rom = (\<lambda>_. 0),
            memory_read_map = (\<lambda>_. Memory_at 0)\<rparr>,
     stdin = [], stdout = []\<rparr>"

text \<open>
  The machine after memory_init and cpu_init, as init_emulator calls them when no ROM
  file is found. Its program counter is the reset vector that cpu_reset reads; the
  scenarios below set their own.
\<close>

definition booted :: machine where
  "booted = cpu_init (program_start\<lparr>mem := memory_init (mem program_start)\<rparr>)"

text \<open>The opcodes that the \<open>switch\<close> of cpu_step lists, in its order.\<close>

definition listed_opcodes :: "8 word list" where
  "listed_opcodes =
    [0xA9, 0xA5, 0xB5, 0xAD, 0xBD, 0xB9, 0xA1, 0xB1, 0xA2, 0xA6, 0xB6, 0xAE, 0xBE,
     0xA0, 0xA4, 0xB4, 0xAC, 0xBC, 0x85, 0x95, 0x8D, 0x9D, 0x99, 0x81, 0x91,
     0x86, 0x96, 0x8E, 0x84, 0x94, 0x8C, 0x4C, 0x6C, 0x20, 0x60, 0xE8, 0xC8, 0xCA, 0x88,
     0xC9, 0xC5, 0xD5, 0xCD, 0xDD, 0xD9, 0xC1, 0xD1, 0xF0, 0xD0, 0xB0, 0x90, 0x30, 0x10,
     0x70, 0x50, 0xAA, 0xA8, 0x8A, 0x98, 0xBA, 0x9A]"

text \<open>
  The end-to-end scenarios of the specification, each on the booted machine: the program
  bytes go in with memory_load, single bytes with memory_write, and cpu_set_pc points
  the CPU at the program.
\<close>

definition e2e_1 :: machine where
  "e2e_1 = cpu_set_pc 0x0800
     (booted\<lparr>mem := memory_load 0x0800
        [0xA9, 0x42, 0xC9, 0x42, 0xF0, 0x02, 0x00, 0x00, 0xEA] 9 (mem booted)\<rparr>)"

definition e2e_2 :: machine where
  "e2e_2 = cpu_set_pc 0xC000
     (booted\<lparr>mem := memory_load 0xC010 [0x60] 1
        (memory_load 0xC000 [0x20, 0x10, 0xC0, 0xEA] 4 (mem booted))\<rparr>)"

definition e2e_4 :: machine where
  "e2e_4 = cpu_set_pc 0x0800
     (booted\<lparr>mem := memory_load 0x0800 [0x6C, 0xFF, 0x20] 3
        (memory_write 0x2000 0xCD
          (memory_write 0x2100 0x12
            (memory_write 0x20FF 0x34 (mem booted))))\<rparr>)"

text \<open>The page table agrees with the banking flags: rebuilding it would change nothing.\<close>

definition maps_agree :: "memory_state \<Rightarrow> bool" where
  "maps_agree s = (\<forall>p. memory_read_map (update_memory_maps s) p = memory_read_map s p)"

text \<open>Page 1, the stack, is served from \<open>memory\<close>.\<close>

definition stack_in_ram :: "memory_state \<Rightarrow> bool" where
  "stack_in_ram s = (memory_read_map s 1 = Memory_at 0x0100)"

text \<open>
  A call of the memory interface, and a sequence of calls run in order. \<open>memory_read\<close>
  returns a byte and leaves the state as it is.
\<close>

datatype memory_op =
    Memory_read "16 word"
  | Memory_write "16 word" "8 word"
  | Memory_load "16 word" "8 word list" "16 word"

fun do_memory_op :: "memory_op \<Rightarrow> memory_state \<Rightarrow> memory_state" where
  "do_memory_op (Memory_read address) s = s"
| "do_memory_op (Memory_write address value) s = memory_write address value s"
| "do_memory_op (Memory_load address data len) s = memory_load address data len s"

text \<open>The four flags as the decode of the low three bits of the byte stored at \<open>$0001\<close>.\<close>

definition flags_decoded :: "memory_state \<Rightarrow> bool" where
  "flags_decoded s =
    (let v = memory s 0x0001
     in kernal_rom_enabled s = bit v 1
        \<and> basic_rom_enabled s = (bit v 0 \<or> bit v 1)
        \<and> io_enabled s = bit v 2
        \<and> char_rom_enabled s = (\<not> bit v 2 \<and> (bit v 0 \<or> bit v 1)))"

text \<open>A memory_load whose range contains \<open>$0001\<close>, and a memory_write to \<open>$0001\<close>.\<close>

fun loads_port :: "memory_op \<Rightarrow> bool" where
  "loads_port (Memory_load address data len) =
     (unat address \<le> 1 \<and> 1 < unat address + load_length address len)"
| "loads_port _ = False"

fun writes_port :: "memory_op \<Rightarrow> bool" where
  "writes_port (Memory_write address value) = (address = 0x0001)"
| "writes_port _ = False"

section \<open>Facts about the memory\<close>

text \<open>The loop as a closed form: the pages \<open>lo..hi\<close> get \<open>f\<close>, the others keep their entry.\<close>

lemma for_pages_apply:
  assumes "hi < 256"
  shows "for_pages lo hi f m p = (if lo \<le> unat p \<and> unat p \<le> hi then f (unat p) else m p)"
proof -
  have "k \<le> Suc hi \<Longrightarrow> fold (\<lambda>i m'. m'(of_nat i := f i)) [lo ..< k] m p
          = (if lo \<le> unat p \<and> unat p < k then f (unat p) else m p)" for k
  proof (induction k)
    case 0
    then show ?case by simp
  next
    case (Suc k)
    from Suc.prems assms have k: "k < 2 ^ LENGTH(8)" by simp
    have eq: "(p = of_nat k) = (unat p = k)"
      using k by (auto simp: unat_of_nat)
    show ?case
    proof (cases "lo \<le> k")
      case True
      then have "fold (\<lambda>i m'. m'(of_nat i := f i)) [lo ..< Suc k] m p
          = ((fold (\<lambda>i m'. m'(of_nat i := f i)) [lo ..< k] m)(of_nat k := f k)) p"
        by simp
      also have "\<dots> = (if unat p = k then f k
                       else if lo \<le> unat p \<and> unat p < k then f (unat p) else m p)"
      proof -
        have "k \<le> Suc hi" using Suc.prems by simp
        from Suc.IH [OF this] show ?thesis
          unfolding fun_upd_apply eq by simp
      qed
      also have "\<dots> = (if lo \<le> unat p \<and> unat p < Suc k then f (unat p) else m p)"
        using True by (auto simp: less_Suc_eq)
      finally show ?thesis .
    next
      case False
      then show ?thesis by auto
    qed
  qed
  from this [of "Suc hi"] show ?thesis
    by (simp add: for_pages_def less_Suc_eq_le)
qed

text \<open>
  An address is its page times 256 plus its offset, so the pointer of the page and the
  offset lead back to the address (in \<open>memory\<close>) or to its distance from the start of
  the region (in a ROM image).
\<close>

lemma unat16_less: "unat (a::16 word) < 65536"
  using unsigned_less [of a, where 'a=nat] by simp

lemma page_unat: "unat (ucast (drop_bit 8 (a::16 word)) :: 8 word) = unat a div 256"
proof -
  have lt: "unat a div 256 < 256" using unat16_less [of a] by simp
  have "unat (ucast (drop_bit 8 a) :: 8 word) = take_bit 8 (drop_bit 8 (unat a))"
    by (simp only: unsigned_ucast_eq unat_drop_bit_eq len_bit0 len_num1) simp
  also have "\<dots> = (unat a div 256) mod 256"
    by (simp add: take_bit_eq_mod drop_bit_eq_div)
  finally show ?thesis using lt by simp
qed

lemma and_255_nat: "(n::nat) AND 255 = n mod 256"
proof -
  have "n AND mask 8 = n mod 2 ^ 8"
    by (simp only: take_bit_eq_mask [symmetric] take_bit_eq_mod)
  then show ?thesis
    by (simp add: mask_eq_exp_minus_1)
qed

lemma offset_unat: "unat (ucast ((a::16 word) AND 0xFF) :: 8 word) = unat a mod 256"
proof -
  have "unat (ucast (a AND 0xFF) :: 8 word) = take_bit 8 (unat a AND unat (0xFF :: 16 word))"
    by (simp only: unsigned_ucast_eq unsigned_and_eq len_bit0 len_num1) simp
  also have "\<dots> = (unat a mod 256) mod 256"
    by (simp add: take_bit_eq_mod and_255_nat)
  finally show ?thesis by simp
qed

lemma page_bounds:
  "((ucast (drop_bit 8 (a::16 word)) :: 8 word) \<ge> 0xD0) = (a \<ge> 0xD000)"
  "((ucast (drop_bit 8 (a::16 word)) :: 8 word) \<le> 0xDF) = (a \<le> 0xDFFF)"
  by (simp_all add: word_le_nat_alt page_unat) arith+

lemma ram_addr:
  "push_bit 8 (of_nat (unat (ucast (drop_bit 8 (a::16 word)) :: 8 word)) :: 16 word)
     + ucast (ucast (a AND 0xFF) :: 8 word) = a"
proof -
  define p where "p = (ucast (drop_bit 8 a) :: 8 word)"
  define off where "off = (ucast (a AND 0xFF) :: 8 word)"
  have p: "unat p = unat a div 256" by (simp only: p_def page_unat)
  have off: "unat off = unat a mod 256" by (simp only: off_def offset_unat)
  have "unat (push_bit 8 (of_nat (unat p) :: 16 word) + ucast off)
      = (unat a div 256 * 256 mod 65536 + unat a mod 256 mod 65536) mod 65536"
    using unat16_less [of a]
    by (simp add: unat_word_ariths unsigned_push_bit_eq unsigned_ucast_eq unat_of_nat
        p off take_bit_eq_mod push_bit_eq_mult del: of_nat_unat)
  also have "\<dots> = unat a"
    using unat16_less [of a] by simp
  finally show ?thesis by (simp add: word_unat_eq_iff p_def off_def del: of_nat_unat)
qed

lemma rom_addr:
  "push_bit 8 (int (unat (ucast (drop_bit 8 (a::16 word)) :: 8 word)) - k)
     + uint (ucast (a AND 0xFF) :: 8 word) = uint a - k * 256"
proof -
  define p where "p = (ucast (drop_bit 8 a) :: 8 word)"
  define off where "off = (ucast (a AND 0xFF) :: 8 word)"
  have p: "unat p = unat a div 256" by (simp only: p_def page_unat)
  have off: "uint off = int (unat a mod 256)" by (simp only: off_def uint_nat offset_unat)
  have a: "uint a = int (unat a)" by (simp only: uint_nat)
  have "int (unat a div 256) * 256 + int (unat a mod 256) = int (unat a)"
    by (simp add: zdiv_int zmod_int)
  then have "push_bit 8 (int (unat p) - k) + uint off = uint a - k * 256"
    unfolding p off a push_bit_eq_mult by (simp add: left_diff_distrib)
  then show ?thesis by (simp only: p_def off_def)
qed

text \<open>The table that update_memory_maps builds, entry by entry.\<close>

lemma memory_read_map_update:
  "memory_read_map (update_memory_maps s) p =
    (if \<not> io_enabled s \<and> char_rom_enabled s \<and> 0xD0 \<le> unat p \<and> unat p \<le> 0xDF
       then Char_rom_at (push_bit 8 (int (unat p) - 0xD0))
     else if kernal_rom_enabled s \<and> 0xE0 \<le> unat p
       then Kernal_rom_at (push_bit 8 (int (unat p) - 0xE0))
     else if basic_rom_enabled s \<and> 0xA0 \<le> unat p \<and> unat p \<le> 0xBF
       then Basic_rom_at (push_bit 8 (int (unat p) - 0xA0))
     else Memory_at (push_bit 8 (of_nat (unat p))))"
proof -
  have "unat p \<le> 255" using unsigned_less [of p, where 'a=nat] by simp
  then show ?thesis
    by (simp add: update_memory_maps_def Let_def for_pages_apply del: of_nat_unat)
qed

lemma memory_read_via_map:
  "memory_read s a =
    (if 0xD000 \<le> a \<and> a \<le> 0xDFFF \<and> io_enabled s then memory s a
     else case memory_read_map s (ucast (drop_bit 8 a)) of
            Memory_at b \<Rightarrow> memory s (b + ucast (ucast (a AND 0xFF) :: 8 word))
          | Basic_rom_at b \<Rightarrow> basic_rom s (b + uint (ucast (a AND 0xFF) :: 8 word))
          | Kernal_rom_at b \<Rightarrow> kernal_rom s (b + uint (ucast (a AND 0xFF) :: 8 word))
          | Char_rom_at b \<Rightarrow> char_rom s (b + uint (ucast (a AND 0xFF) :: 8 word)))"
  by (simp only: memory_read_def Let_def deref_def page_bounds)

text \<open>What memory_read returns when the page table agrees with the flags.\<close>

lemma memory_read_agree:
  assumes "maps_agree s"
  shows "memory_read s a =
    (if 0xD000 \<le> a \<and> a \<le> 0xDFFF then
       (if io_enabled s then memory s a
        else if char_rom_enabled s then char_rom s (uint a - 0xD000)
        else memory s a)
     else if kernal_rom_enabled s \<and> 0xE000 \<le> a then kernal_rom s (uint a - 0xE000)
     else if basic_rom_enabled s \<and> 0xA000 \<le> a \<and> a \<le> 0xBFFF then basic_rom s (uint a - 0xA000)
     else memory s a)"
proof -
  let ?p = "ucast (drop_bit 8 a) :: 8 word"
  have m: "memory_read_map s ?p = memory_read_map (update_memory_maps s) ?p"
    using assms by (simp add: maps_agree_def)
  have b: "(0xD0 \<le> unat ?p) = (0xD000 \<le> a)" "(unat ?p \<le> 0xDF) = (a \<le> 0xDFFF)"
     "(0xE0 \<le> unat ?p) = (0xE000 \<le> a)"
     "(0xA0 \<le> unat ?p) = (0xA000 \<le> a)" "(unat ?p \<le> 0xBF) = (a \<le> 0xBFFF)"
    by (simp_all add: word_le_nat_alt page_unat) arith+
  show ?thesis
    unfolding memory_read_via_map m memory_read_map_update b
    using rom_addr [of a "0xD0"] rom_addr [of a "0xE0"] rom_addr [of a "0xA0"] ram_addr [of a]
    by (auto simp: word_le_nat_alt simp del: of_nat_unat)
qed

lemma maps_agree_update [simp]: "maps_agree (update_memory_maps s)"
  by (simp add: maps_agree_def memory_read_map_update) (simp add: update_memory_maps_def Let_def)

lemma maps_agree_init [simp]: "maps_agree (memory_init s0)"
  by (simp add: memory_init_def)

lemma update_memory_maps_fields [simp]:
  "memory (update_memory_maps s) = memory s"
  "basic_rom_enabled (update_memory_maps s) = basic_rom_enabled s"
  "kernal_rom_enabled (update_memory_maps s) = kernal_rom_enabled s"
  "char_rom_enabled (update_memory_maps s) = char_rom_enabled s"
  "io_enabled (update_memory_maps s) = io_enabled s"
  "basic_rom (update_memory_maps s) = basic_rom s"
  "kernal_rom (update_memory_maps s) = kernal_rom s"
  "char_rom (update_memory_maps s) = char_rom s"
  by (simp_all add: update_memory_maps_def Let_def)

lemma word_numeral_le_1 [simp]:
  "(numeral n \<le> (1::'a::len word)) = (\<not> 1 < (numeral n :: 'a word))"
  by (simp only: not_less)

text \<open>A write to \<open>$0001\<close> always reaches the banking branch of memory_write.\<close>

lemma write_port:
  "memory_write 0x0001 v s =
    (let s1 = s\<lparr>memory := (memory s)(0x0001 := v),
                kernal_rom_enabled := (v AND 0x02 \<noteq> 0),
                basic_rom_enabled := (v AND 0x03 \<noteq> 0),
                io_enabled := (v AND 0x04 \<noteq> 0),
                char_rom_enabled := (v AND 0x04 = 0 \<and> v AND 0x03 \<noteq> 0)\<rparr>
     in if memory s 0x0001 AND 0x07 \<noteq> v AND 0x07 then update_memory_maps s1 else s1)"
  by (simp add: memory_write_def Let_def)

lemma init_fields [simp]:
  "memory (memory_init s0) = (\<lambda>_. 0)(0x0000 := 0x2F, 0x0001 := 0x37)"
  "basic_rom_enabled (memory_init s0)"
  "kernal_rom_enabled (memory_init s0)"
  "char_rom_enabled (memory_init s0)"
  "io_enabled (memory_init s0)"
  "basic_rom (memory_init s0) i = 0xEA"
  "0 \<le> i \<Longrightarrow> kernal_rom (memory_init s0) i = 0xEA"
  "char_rom (memory_init s0) i = 0"
  by (simp_all add: memory_init_def)

section \<open>The banking toggle\<close>

text \<open>
  Claim C5. After memory_init, \<open>memory_read(0xA000)\<close> is the BASIC ROM's \<open>0xEA\<close>;
  writing \<open>0x00\<close> to \<open>$0001\<close> makes it the RAM byte, which is zero; writing \<open>0x07\<close>
  back makes it \<open>0xEA\<close> again. From any state, writing \<open>0x07\<close> and then \<open>0x30\<close> to
  \<open>$0001\<close> clears all four banking flags, and every read in \<open>$A000..$BFFF\<close> returns
  the byte of \<open>memory\<close>.
\<close>

theorem banking_toggle:
  "memory_read (memory_init s0) 0xA000 = 0xEA
   \<and> memory (memory_init s0) 0xA000 = 0
   \<and> memory_read (memory_write 0x0001 0x00 (memory_init s0)) 0xA000 = 0
   \<and> memory_read (memory_write 0x0001 0x07 (memory_write 0x0001 0x00 (memory_init s0))) 0xA000 = 0xEA
   \<and> (0xA000 \<le> addr \<and> addr \<le> 0xBFFF \<longrightarrow>
        (let s2 = memory_write 0x0001 0x30 (memory_write 0x0001 0x07 s)
         in memory_read s2 addr = memory s2 addr
            \<and> \<not> basic_rom_enabled s2 \<and> \<not> kernal_rom_enabled s2
            \<and> \<not> io_enabled s2 \<and> \<not> char_rom_enabled s2))"
proof -
  have 1: "memory_read (memory_init s0) 0xA000 = 0xEA"
    by (simp add: memory_read_agree)
  have 2: "memory (memory_init s0) 0xA000 = 0"
    by simp
  have 3: "memory_read (memory_write 0x0001 0x00 (memory_init s0)) 0xA000 = 0"
    by (simp add: write_port memory_read_agree)
  have 4: "memory_read (memory_write 0x0001 0x07 (memory_write 0x0001 0x00 (memory_init s0))) 0xA000 = 0xEA"
    by (simp add: write_port memory_read_agree)
  have 5: "memory_read s2 addr = memory s2 addr
            \<and> \<not> basic_rom_enabled s2 \<and> \<not> kernal_rom_enabled s2
            \<and> \<not> io_enabled s2 \<and> \<not> char_rom_enabled s2"
    if "s2 = memory_write 0x0001 0x30 (memory_write 0x0001 0x07 s)" for s2
  proof -
    have s2: "s2 = update_memory_maps
        ((memory_write 0x0001 0x07 s)\<lparr>memory := (memory (memory_write 0x0001 0x07 s))(0x0001 := 0x30),
                kernal_rom_enabled := False, basic_rom_enabled := False,
                io_enabled := False, char_rom_enabled := False\<rparr>)"
      unfolding that by (subst write_port) (simp add: write_port Let_def)
    show ?thesis
      unfolding s2 by (simp add: memory_read_agree)
  qed
  from 1 2 3 4 5 show ?thesis by (simp add: Let_def)
qed

text \<open>Claim C5 at the address \<open>$A123\<close>, after memory_init.\<close>

theorem banking_toggle_witness:
  "(0xA000 :: 16 word) \<le> 0xA123 \<and> (0xA123 :: 16 word) \<le> 0xBFFF
   \<and> memory_read (memory_write 0x0001 0x30 (memory_write 0x0001 0x07 (memory_init (mem program_start)))) 0xA123
       = memory (memory_write 0x0001 0x30 (memory_write 0x0001 0x07 (memory_init (mem program_start)))) 0xA123
   \<and> memory_read (memory_write 0x0001 0x30 (memory_write 0x0001 0x07 (memory_init (mem program_start)))) 0xA123 = 0"
  using banking_toggle [of "mem program_start" "0xA123" "memory_init (mem program_start)"]
  by (simp add: Let_def write_port)

section \<open>memory_load against the write contract\<close>

lemma memory_load_fields [simp]:
  "basic_rom_enabled (memory_load address data len s) = basic_rom_enabled s"
  "kernal_rom_enabled (memory_load address data len s) = kernal_rom_enabled s"
  "char_rom_enabled (memory_load address data len s) = char_rom_enabled s"
  "io_enabled (memory_load address data len s) = io_enabled s"
  "basic_rom (memory_load address data len s) = basic_rom s"
  "kernal_rom (memory_load address data len s) = kernal_rom s"
  "char_rom (memory_load address data len s) = char_rom s"
  "memory_read_map (memory_load address data len s) = memory_read_map s"
  by (simp_all add: memory_load_def)

lemma load_length_bound: "unat address + load_length address len \<le> 65536"
  using unat16_less [of address] by (simp add: load_length_def)

lemma memory_load_inside:
  assumes "i < load_length address len"
  shows "memory (memory_load address data len s) (address + of_nat i) = data ! i"
proof -
  have lt: "unat address + i < 65536"
    using assms load_length_bound [of address len] by simp
  then have u: "unat (address + of_nat i) = unat address + i"
    by (simp add: unat_word_ariths unat_of_nat)
  then have "address \<le> address + of_nat i"
    by (simp add: word_le_nat_alt)
  with u assms show ?thesis
    by (simp add: memory_load_def)
qed

lemma memory_load_outside:
  assumes "a < address \<or> unat address + load_length address len \<le> unat a"
  shows "memory (memory_load address data len s) a = memory s a"
  using assms by (auto simp: memory_load_def)

text \<open>
  Claim C10. memory_load copies the bytes straight into \<open>memory\<close>, at most up to the
  end of the array: every byte of the (clipped) range holds the loaded byte afterwards,
  whatever the banking flags say about its address, so also inside an enabled ROM region
  and at \<open>$0001\<close>; every other byte of \<open>memory\<close>, the four banking flags, the page
  table and the ROM images are left as they were.
\<close>

theorem memory_load_bypasses_write_contract:
  assumes "unat len \<le> length data"
  shows "(\<forall>i < load_length address len.
            memory (memory_load address data len s) (address + of_nat i) = data ! i)
       \<and> (\<forall>a. a < address \<or> unat address + load_length address len \<le> unat a \<longrightarrow>
            memory (memory_load address data len s) a = memory s a)
       \<and> load_length address len = min (unat len) (65536 - unat address)
       \<and> basic_rom_enabled (memory_load address data len s) = basic_rom_enabled s
       \<and> kernal_rom_enabled (memory_load address data len s) = kernal_rom_enabled s
       \<and> char_rom_enabled (memory_load address data len s) = char_rom_enabled s
       \<and> io_enabled (memory_load address data len s) = io_enabled s
       \<and> memory_read_map (memory_load address data len s) = memory_read_map s
       \<and> basic_rom (memory_load address data len s) = basic_rom s
       \<and> kernal_rom (memory_load address data len s) = kernal_rom s
       \<and> char_rom (memory_load address data len s) = char_rom s"
proof -
  have "load_length address len = min (unat len) (65536 - unat address)"
    using unat16_less [of address] by (auto simp: load_length_def)
  then show ?thesis
    by (simp add: memory_load_inside memory_load_outside)
qed

text \<open>
  Claim C10 after memory_init: a load of one byte over \<open>$0001\<close> replaces the port byte
  \<open>0x37\<close> and leaves \<open>$0002\<close>, while BASIC stays enabled and the page table stays; a
  load at \<open>$A000\<close> lands in \<open>memory\<close>.
\<close>

theorem memory_load_bypasses_write_contract_witness:
  "unat (1 :: 16 word) \<le> length [0x00 :: 8 word, 0x55]
   \<and> memory (memory_init (mem program_start)) 0x0001 = 0x37
   \<and> memory (memory_load 0x0001 [0x00, 0x55] 1 (memory_init (mem program_start))) 0x0001 = 0x00
   \<and> memory (memory_load 0x0001 [0x00, 0x55] 1 (memory_init (mem program_start))) 0x0002
       = memory (memory_init (mem program_start)) 0x0002
   \<and> basic_rom_enabled (memory_load 0x0001 [0x00, 0x55] 1 (memory_init (mem program_start)))
   \<and> memory_read_map (memory_load 0x0001 [0x00, 0x55] 1 (memory_init (mem program_start)))
       = memory_read_map (memory_init (mem program_start))
   \<and> unat (2 :: 16 word) \<le> length [0x00 :: 8 word, 0x55]
   \<and> memory (memory_load 0xA000 [0x00, 0x55] 2 (memory_init (mem program_start))) 0xA001 = 0x55"
proof -
  have h1: "unat (1 :: 16 word) \<le> length [0x00 :: 8 word, 0x55]" by simp
  have h2: "unat (2 :: 16 word) \<le> length [0x00 :: 8 word, 0x55]" by simp
  have l1: "load_length 0x0001 1 = 1" and l2: "load_length 0xA000 2 = 2"
    by (simp_all add: load_length_def)
  note t1 = memory_load_bypasses_write_contract [OF h1, of "0x0001" "memory_init (mem program_start)"]
  note t2 = memory_load_bypasses_write_contract [OF h2, of "0xA000" "memory_init (mem program_start)"]
  from t1 have "memory (memory_load 0x0001 [0x00, 0x55] 1 (memory_init (mem program_start))) (0x0001 + of_nat 0) = [0x00, 0x55] ! 0"
    unfolding l1 by blast
  moreover from t1 have "memory (memory_load 0x0001 [0x00, 0x55] 1 (memory_init (mem program_start))) 0x0002
       = memory (memory_init (mem program_start)) 0x0002"
    unfolding l1 by (elim conjE allE [of _ "0x0002"]) simp
  moreover from t2 have "memory (memory_load 0xA000 [0x00, 0x55] 2 (memory_init (mem program_start))) (0xA000 + of_nat 1) = [0x00, 0x55] ! 1"
    unfolding l2 by (elim conjE allE [of _ 1]) simp
  moreover from t1 have "memory_read_map (memory_load 0x0001 [0x00, 0x55] 1 (memory_init (mem program_start)))
       = memory_read_map (memory_init (mem program_start))"
    and "basic_rom_enabled (memory_load 0x0001 [0x00, 0x55] 1 (memory_init (mem program_start))) = basic_rom_enabled (memory_init (mem program_start))"
    by blast+
  ultimately show ?thesis using h1 h2 by (simp add: memory_init_def)
qed

section \<open>The banking flags and the byte at \<open>$0001\<close>\<close>

lemma and_2_bit: "((v::8 word) AND 0x02 \<noteq> 0) = bit v 1"
  using and_exp_eq_0_iff_not_bit [of v 1] by simp

lemma and_4_bit: "((v::8 word) AND 0x04 \<noteq> 0) = bit v 2"
  using and_exp_eq_0_iff_not_bit [of v 2] by simp

lemma and_3_bit: "((v::8 word) AND 0x03 \<noteq> 0) = (bit v 0 \<or> bit v 1)"
proof -
  have m: "(mask 2 :: 8 word) = 3" by (simp add: mask_eq_exp_minus_1)
  have "bit (mask 2 :: 8 word) n = (n < 2)" for n
    by (auto simp: bit_mask_iff)
  then have b3: "bit (3 :: 8 word) n = (n < 2)" for n
    unfolding m .
  have "\<not> bit v 0 \<and> \<not> bit v 1" if "v AND 3 = 0"
  proof -
    from that have "\<not> bit (v AND 3) 0" "\<not> bit (v AND 3) 1" by simp_all
    then show ?thesis by (simp only: bit_and_iff b3) simp
  qed
  moreover have "v AND 3 = 0" if "\<not> bit v 0 \<and> \<not> bit v 1"
  proof (rule bit_word_eqI)
    fix n
    show "bit (v AND 3) n = bit (0 :: 8 word) n"
    proof (cases "n < 2")
      case True
      then have "n = 0 \<or> n = 1" by auto
      with that show ?thesis by (auto simp: bit_and_iff)
    next
      case False
      then show ?thesis by (simp only: bit_and_iff b3) simp
    qed
  qed
  ultimately show ?thesis by blast
qed

lemma and_4_bit_0: "((v::8 word) AND 0x04 = 0) = (\<not> bit v 2)"
  using and_4_bit [of v] by blast

lemma write_port_flags:
  "memory (memory_write 0x0001 v s) 0x0001 = v"
  "kernal_rom_enabled (memory_write 0x0001 v s) = bit v 1"
  "basic_rom_enabled (memory_write 0x0001 v s) = (bit v 0 \<or> bit v 1)"
  "io_enabled (memory_write 0x0001 v s) = bit v 2"
  "char_rom_enabled (memory_write 0x0001 v s) = (\<not> bit v 2 \<and> (bit v 0 \<or> bit v 1))"
  by (simp_all add: write_port Let_def and_2_bit and_3_bit and_4_bit and_4_bit_0)

lemma write_elsewhere_flags:
  assumes "address \<noteq> 0x0001"
  shows "memory (memory_write address v s) 0x0001 = memory s 0x0001"
    "kernal_rom_enabled (memory_write address v s) = kernal_rom_enabled s"
    "basic_rom_enabled (memory_write address v s) = basic_rom_enabled s"
    "io_enabled (memory_write address v s) = io_enabled s"
    "char_rom_enabled (memory_write address v s) = char_rom_enabled s"
  using assms by (simp_all add: memory_write_def)

lemma load_spares_port:
  assumes "\<not> (unat address \<le> 1 \<and> 1 < unat address + load_length address len)"
  shows "memory (memory_load address data len s) 0x0001 = memory s 0x0001"
  using assms by (auto simp: memory_load_def word_le_nat_alt)

text \<open>
  Claim C2 says that the four flags are the decode of the byte stored at \<open>$0001\<close>
  after memory_init and after any sequence of memory_read, memory_write and memory_load.
  It fails in two places. memory_init stores \<open>0x37\<close> and sets all four flags, but the
  decode of \<open>0x37\<close> has the character ROM flag clear. memory_load over \<open>$0001\<close>
  replaces the byte and leaves the flags.
\<close>

theorem flags_decoded_counterexample:
  "\<not> flags_decoded (memory_init (mem program_start))
   \<and> \<not> flags_decoded
        (fold do_memory_op [Memory_load 0x0001 [0x00] 1] (memory_init (mem program_start)))"
  by (simp add: flags_decoded_def Let_def memory_load_def load_length_def)

text \<open>
  Claim C2 as amended. After memory_init and any sequence of memory_read, memory_write
  and memory_load in which no load covers \<open>$0001\<close>: kernal_rom_enabled is bit 1 of the
  byte stored at \<open>$0001\<close>, basic_rom_enabled is bit 0 or bit 1, io_enabled is bit 2; and
  once the sequence has a memory_write to \<open>$0001\<close>, char_rom_enabled is its decode too,
  so all four flags are decoded. Until then the byte is still \<open>0x37\<close> and
  char_rom_enabled is still set, as memory_init left them.
\<close>

theorem flags_follow_port_writes:
  assumes "\<forall>op \<in> set ops. \<not> loads_port op"
  shows "let s = fold do_memory_op ops (memory_init s0)
         in kernal_rom_enabled s = bit (memory s 0x0001) 1
            \<and> basic_rom_enabled s = (bit (memory s 0x0001) 0 \<or> bit (memory s 0x0001) 1)
            \<and> io_enabled s = bit (memory s 0x0001) 2
            \<and> ((\<exists>op \<in> set ops. writes_port op) \<longrightarrow> flags_decoded s)
            \<and> ((\<forall>op \<in> set ops. \<not> writes_port op) \<longrightarrow>
                 char_rom_enabled s \<and> memory s 0x0001 = 0x37 \<and> \<not> flags_decoded s)"
proof -
  define inv where "inv w s =
     (kernal_rom_enabled s = bit (memory s 0x0001) 1
      \<and> basic_rom_enabled s = (bit (memory s 0x0001) 0 \<or> bit (memory s 0x0001) 1)
      \<and> io_enabled s = bit (memory s 0x0001) 2
      \<and> (if w then char_rom_enabled s
                   = (\<not> bit (memory s 0x0001) 2 \<and> (bit (memory s 0x0001) 0 \<or> bit (memory s 0x0001) 1))
          else char_rom_enabled s \<and> memory s 0x0001 = 0x37))" for w and s :: memory_state
  have init: "inv False (memory_init s0)"
    by (simp add: inv_def)
  have step: "inv (w \<or> writes_port op) (do_memory_op op s)"
    if "inv w s" "\<not> loads_port op" for w op s
  proof (cases op)
    case (Memory_read address)
    with that show ?thesis by simp
  next
    case (Memory_write address v)
    show ?thesis
    proof (cases "address = 0x0001")
      case True
      then show ?thesis
        unfolding Memory_write by (simp add: inv_def write_port_flags)
    next
      case False
      with that show ?thesis
        unfolding Memory_write by (simp add: inv_def write_elsewhere_flags)
    qed
  next
    case (Memory_load address data len)
    with that show ?thesis
      by (simp add: inv_def load_spares_port)
  qed
  have "inv (\<exists>op \<in> set ops. writes_port op) (fold do_memory_op ops (memory_init s0))"
    using assms
  proof (induction ops rule: rev_induct)
    case Nil
    then show ?case using init by simp
  next
    case (snoc op ops)
    then have "inv (\<exists>op \<in> set ops. writes_port op) (fold do_memory_op ops (memory_init s0))"
      and "\<not> loads_port op"
      by simp_all
    from step [OF this] show ?case
      by (simp add: disj_commute)
  qed
  then show ?thesis
    by (auto simp: inv_def flags_decoded_def Let_def)
qed

text \<open>
  Claim C2 as amended, on a sequence that ends with writing \<open>0x05\<close> to \<open>$0001\<close>,
  and on one that never writes there.
\<close>

theorem flags_follow_port_writes_witness:
  "\<not> loads_port (Memory_write 0xA000 0x55)
   \<and> \<not> loads_port (Memory_read 0xA000)
   \<and> \<not> loads_port (Memory_load 0x0800 [0xA9, 0x42] 2)
   \<and> \<not> loads_port (Memory_write 0x0001 0x05)
   \<and> writes_port (Memory_write 0x0001 0x05)
   \<and> flags_decoded
        (fold do_memory_op
           [Memory_write 0xA000 0x55, Memory_read 0xA000,
            Memory_load 0x0800 [0xA9, 0x42] 2, Memory_write 0x0001 0x05]
           (memory_init (mem program_start)))
   \<and> \<not> writes_port (Memory_write 0xA000 0x55)
   \<and> \<not> writes_port (Memory_load 0x0800 [0xA9, 0x42] 2)
   \<and> char_rom_enabled
        (fold do_memory_op [Memory_write 0xA000 0x55, Memory_load 0x0800 [0xA9, 0x42] 2]
           (memory_init (mem program_start)))
   \<and> memory
        (fold do_memory_op [Memory_write 0xA000 0x55, Memory_load 0x0800 [0xA9, 0x42] 2]
           (memory_init (mem program_start))) 0x0001 = 0x37
   \<and> io_enabled
        (fold do_memory_op [Memory_write 0xA000 0x55, Memory_load 0x0800 [0xA9, 0x42] 2]
           (memory_init (mem program_start)))"
proof -
  have h: "\<forall>op \<in> set [Memory_write 0xA000 0x55, Memory_read 0xA000,
                   Memory_load 0x0800 [0xA9, 0x42] 2, Memory_write 0x0001 0x05].
      \<not> loads_port op"
    by (simp add: load_length_def)
  have g: "\<forall>op \<in> set [Memory_write 0xA000 0x55, Memory_load 0x0800 [0xA9, 0x42] 2].
      \<not> loads_port op"
    by (simp add: load_length_def)
  have b: "bit (0x37 :: 8 word) 2" by simp
  from flags_follow_port_writes [OF h, of "mem program_start"]
  have 1: "flags_decoded
        (fold do_memory_op
           [Memory_write 0xA000 0x55, Memory_read 0xA000,
            Memory_load 0x0800 [0xA9, 0x42] 2, Memory_write 0x0001 0x05]
           (memory_init (mem program_start)))"
    by (simp add: Let_def)
  from flags_follow_port_writes [OF g, of "mem program_start"] b
  have 2: "char_rom_enabled
        (fold do_memory_op [Memory_write 0xA000 0x55, Memory_load 0x0800 [0xA9, 0x42] 2]
           (memory_init (mem program_start)))
   \<and> memory
        (fold do_memory_op [Memory_write 0xA000 0x55, Memory_load 0x0800 [0xA9, 0x42] 2]
           (memory_init (mem program_start))) 0x0001 = 0x37
   \<and> io_enabled
        (fold do_memory_op [Memory_write 0xA000 0x55, Memory_load 0x0800 [0xA9, 0x42] 2]
           (memory_init (mem program_start)))"
    by (simp add: Let_def)
  from 1 2 h g show ?thesis by simp
qed

section \<open>Writes into an enabled ROM region\<close>

lemma rom_write_discarded:
  assumes "basic_rom_enabled s \<and> 0xA000 \<le> addr \<and> addr \<le> 0xBFFF
           \<or> kernal_rom_enabled s \<and> 0xE000 \<le> addr \<and> addr \<le> 0xFFFF"
  shows "memory_write addr v s = s"
  using assms by (auto simp: memory_write_def)

lemma rom_read_after_write:
  assumes "maps_agree s"
  shows "basic_rom_enabled s \<and> 0xA000 \<le> addr \<and> addr \<le> 0xBFFF \<Longrightarrow>
           memory_read (memory_write addr v s) addr = basic_rom s (uint addr - 0xA000)"
    and "kernal_rom_enabled s \<and> 0xE000 \<le> addr \<and> addr \<le> 0xFFFF \<Longrightarrow>
           memory_read (memory_write addr v s) addr = kernal_rom s (uint addr - 0xE000)"
  using assms
  by (auto simp: rom_write_discarded memory_read_agree word_le_nat_alt)

text \<open>
  Claim C4 at a state the interface reaches: memory_init, \<open>0x00\<close> written to \<open>$0001\<close>
  (all banks off, table rebuilt), \<open>0x07\<close> loaded over \<open>$0001\<close> by memory_load, \<open>0x07\<close>
  written to \<open>$0001\<close>. The last write sets basic_rom_enabled but finds the low three
  bits of the stored byte equal to the new ones and does not rebuild the table. A write
  to \<open>$A000\<close> is then discarded, and the read that follows returns the byte of
  \<open>memory\<close>, \<open>0x00\<close>, not the BASIC ROM's \<open>0xEA\<close>.
\<close>

theorem rom_read_after_write_stale_table:
  "basic_rom_enabled
     (fold do_memory_op
        [Memory_write 0x0001 0x00, Memory_load 0x0001 [0x07] 1, Memory_write 0x0001 0x07]
        (memory_init (mem program_start)))
   \<and> memory_write 0xA000 0x55
         (fold do_memory_op
            [Memory_write 0x0001 0x00, Memory_load 0x0001 [0x07] 1, Memory_write 0x0001 0x07]
            (memory_init (mem program_start)))
       = fold do_memory_op
            [Memory_write 0x0001 0x00, Memory_load 0x0001 [0x07] 1, Memory_write 0x0001 0x07]
            (memory_init (mem program_start))
   \<and> memory_read
         (memory_write 0xA000 0x55
            (fold do_memory_op
               [Memory_write 0x0001 0x00, Memory_load 0x0001 [0x07] 1, Memory_write 0x0001 0x07]
               (memory_init (mem program_start))))
         0xA000 = 0x00
   \<and> basic_rom
         (fold do_memory_op
            [Memory_write 0x0001 0x00, Memory_load 0x0001 [0x07] 1, Memory_write 0x0001 0x07]
            (memory_init (mem program_start)))
         (uint (0xA000 :: 16 word) - 0xA000) = 0xEA"
proof -
  define s where "s = fold do_memory_op
        [Memory_write 0x0001 0x00, Memory_load 0x0001 [0x07] 1, Memory_write 0x0001 0x07]
        (memory_init (mem program_start))"
  have b: "basic_rom_enabled s"
    by (simp add: s_def write_port Let_def memory_load_def load_length_def)
  have m: "memory_read_map s 0xA0 = Memory_at 0xA000"
    by (simp add: s_def write_port Let_def memory_load_def load_length_def memory_read_map_update)
  have r: "memory s 0xA000 = 0"
    by (simp add: s_def write_port Let_def memory_load_def load_length_def)
  have rom: "basic_rom s 0 = 0xEA"
    by (simp add: s_def write_port Let_def)
  have w: "memory_write 0xA000 0x55 s = s"
    using b by (simp add: rom_write_discarded)
  have "memory_read s 0xA000 = 0"
    by (simp add: memory_read_via_map m r)
  with b w rom show ?thesis
    unfolding s_def [symmetric] by simp
qed

section \<open>The stack\<close>

lemma and_255_ucast: "(ucast ((w :: 16 word) AND 0xFF) :: 8 word) = ucast w"
proof -
  have "(0xFF :: 16 word) = mask 8" by (simp add: mask_eq_exp_minus_1)
  then show ?thesis
    by (simp only: flip: take_bit_eq_mask) (rule bit_word_eqI, simp add: bit_simps)
qed

lemma word_of_bytes: "push_bit 8 (ucast (ucast (drop_bit 8 w) :: 8 word)) OR ucast (ucast w :: 8 word) = (w :: 16 word)"
  by (rule bit_word_eqI) (auto simp: bit_simps)

lemma stack_addr_unat: "unat (0x0100 + ucast (p :: 8 word) :: 16 word) = 256 + unat p"
proof -
  have "unat p < 256" using unsigned_less [of p, where 'a=nat] by simp
  then show ?thesis
    by (simp add: unat_word_ariths unsigned_ucast_eq take_bit_eq_mod)
qed

lemma stack_addr_inj: "((0x0100 + ucast p :: 16 word) = 0x0100 + ucast q) = (p = (q :: 8 word))"
  by (simp add: word_unat_eq_iff stack_addr_unat)

lemma ucast_8_16_inj [simp]: "((ucast p :: 16 word) = ucast q) = (p = (q :: 8 word))"
  using stack_addr_inj [of p q] by simp

lemma stack_write:
  "memory_write (0x0100 + ucast (p :: 8 word)) v m
     = m\<lparr>memory := (memory m)(0x0100 + ucast p := v)\<rparr>"
proof -
  have "unat p < 256" using unsigned_less [of p, where 'a=nat] by simp
  then show ?thesis
    by (simp add: memory_write_def word_le_nat_alt word_unat_eq_iff stack_addr_unat)
qed

lemma stack_read:
  assumes "stack_in_ram m"
  shows "memory_read m (0x0100 + ucast (p :: 8 word)) = memory m (0x0100 + ucast p)"
proof -
  let ?a = "0x0100 + ucast p :: 16 word"
  have lt: "unat p < 256" using unsigned_less [of p, where 'a=nat] by simp
  then have "unat (ucast (drop_bit 8 ?a) :: 8 word) = unat (1 :: 8 word)"
    by (simp add: page_unat stack_addr_unat)
  then have page: "(ucast (drop_bit 8 ?a) :: 8 word) = 1"
    by (simp only: word_unat_eq_iff)
  have "\<not> 0xD000 \<le> ?a"
    using lt by (simp add: word_le_nat_alt stack_addr_unat)
  moreover have "0x0100 + ucast (ucast (?a AND 0xFF) :: 8 word) = ?a"
    using ram_addr [of ?a] unfolding page by simp
  ultimately show ?thesis
    using assms unfolding memory_read_via_map page stack_in_ram_def by simp
qed

lemma push_byte_fields [simp]:
  "cpu_sp (cpu_push_byte v s) = cpu_sp s - 1"
  "mem (cpu_push_byte v s) = (mem s)\<lparr>memory := (memory (mem s))(0x0100 + ucast (cpu_sp s) := v)\<rparr>"
  "cpu_pc (cpu_push_byte v s) = cpu_pc s"
  "cpu_a (cpu_push_byte v s) = cpu_a s"
  "cycles (cpu_push_byte v s) = cycles s"
  "stdin (cpu_push_byte v s) = stdin s"
  "stdout (cpu_push_byte v s) = stdout s"
  by (simp_all add: cpu_push_byte_def stack_write)

lemma push_word_fields:
  "cpu_sp (cpu_push_word w s) = cpu_sp s - 2"
  "mem (cpu_push_word w s) = (mem s)\<lparr>memory := (memory (mem s))
       (0x0100 + ucast (cpu_sp s) := ucast (drop_bit 8 w),
        0x0100 + ucast (cpu_sp s - 1) := ucast w)\<rparr>"
  "cpu_pc (cpu_push_word w s) = cpu_pc s"
  "cpu_a (cpu_push_word w s) = cpu_a s"
  "cycles (cpu_push_word w s) = cycles s"
  "stdin (cpu_push_word w s) = stdin s"
  "stdout (cpu_push_word w s) = stdout s"
  by (simp_all add: cpu_push_word_def and_255_ucast)

text \<open>
  A pull of a word right after a push, on any state that has the memory and the stack
  pointer the push left (the KERNAL trap changes other fields in between).
\<close>

lemma pull_word_after_push:
  assumes "stack_in_ram (mem s)"
    and "mem s' = mem (cpu_push_word w s)" and "cpu_sp s' = cpu_sp s - 2"
  shows "fst (cpu_pull_word s') = w"
    and "snd (cpu_pull_word s') = s'\<lparr>cpu_sp := cpu_sp s\<rparr>"
proof -
  have ram: "stack_in_ram (mem s')"
    using assms by (simp add: push_word_fields stack_in_ram_def)
  have ne: "cpu_sp s \<noteq> cpu_sp s - 1" by simp
  have lo: "memory_read (mem s') (0x0100 + ucast (cpu_sp s - 1)) = ucast w"
    by (simp add: stack_read ram) (simp add: assms push_word_fields)
  have hi: "memory_read (mem s') (0x0100 + ucast (cpu_sp s)) = ucast (drop_bit 8 w)"
    using ne by (simp add: stack_read ram) (simp add: assms push_word_fields stack_addr_inj)
  have sp1: "cpu_sp s - 2 + 1 = cpu_sp s - 1" by simp
  show "fst (cpu_pull_word s') = w"
    by (simp add: cpu_pull_word_def cpu_pull_byte_def Let_def assms(3) sp1 lo hi word_of_bytes)
  show "snd (cpu_pull_word s') = s'\<lparr>cpu_sp := cpu_sp s\<rparr>"
    by (simp add: cpu_pull_word_def cpu_pull_byte_def Let_def assms(3) sp1)
qed

section \<open>The booted machine\<close>

lemma stack_in_ram_update [simp]: "stack_in_ram (update_memory_maps m)"
  by (simp add: stack_in_ram_def memory_read_map_update)

lemma stack_in_ram_init [simp]: "stack_in_ram (memory_init m)"
  by (simp add: memory_init_def)

lemma cpu_reset_fields [simp]:
  "mem (cpu_reset s) = mem s"
  "cpu_sp (cpu_reset s) = 0xFD"
  "cycles (cpu_reset s) = 0"
  "cpu_a (cpu_reset s) = cpu_a s"
  "cpu_x (cpu_reset s) = cpu_x s"
  "cpu_y (cpu_reset s) = cpu_y s"
  "stdin (cpu_reset s) = stdin s"
  "stdout (cpu_reset s) = stdout s"
  by (simp_all add: cpu_reset_def Let_def)

lemma cpu_init_fields [simp]:
  "mem (cpu_init s) = mem s"
  "cpu_sp (cpu_init s) = 0xFD"
  "cycles (cpu_init s) = 0"
  "cpu_a (cpu_init s) = 0"
  "cpu_x (cpu_init s) = 0"
  "cpu_y (cpu_init s) = 0"
  "stdin (cpu_init s) = stdin s"
  "stdout (cpu_init s) = stdout s"
  by (simp_all add: cpu_init_def)

lemma booted_fields [simp]:
  "mem booted = memory_init (mem program_start)"
  "cpu_sp booted = 0xFD"
  "cycles booted = 0"
  "stdin booted = []"
  "stdout booted = []"
  by (simp_all add: booted_def) (simp_all add: program_start_def)

section \<open>The stack word round trip\<close>

text \<open>
  Claim C7. On a state whose stack page is served from \<open>memory\<close>, for every 16-bit
  \<open>w\<close> and every stack pointer: cpu_push_word stores the high byte of \<open>w\<close> at
  \<open>0x0100 + sp\<close>, then the low byte at \<open>0x0100 + (sp - 1)\<close>, and leaves \<open>sp - 2\<close>, all
  modulo 256; cpu_pull_word right after it returns \<open>w\<close> and changes nothing but the
  stack pointer, which is \<open>sp\<close> again.
\<close>

theorem push_word_pull_word:
  assumes "stack_in_ram (mem s)"
  shows "fst (cpu_pull_word (cpu_push_word w s)) = w
       \<and> cpu_sp (snd (cpu_pull_word (cpu_push_word w s))) = cpu_sp s
       \<and> snd (cpu_pull_word (cpu_push_word w s)) = (cpu_push_word w s)\<lparr>cpu_sp := cpu_sp s\<rparr>
       \<and> cpu_sp (cpu_push_word w s) = cpu_sp s - 2
       \<and> memory (mem (cpu_push_word w s)) (0x0100 + ucast (cpu_sp s)) = ucast (drop_bit 8 w)
       \<and> memory (mem (cpu_push_word w s)) (0x0100 + ucast (cpu_sp s - 1)) = ucast w"
proof -
  have sp: "cpu_sp (cpu_push_word w s) = cpu_sp s - 2"
    by (simp add: push_word_fields)
  note pull = pull_word_after_push [OF assms refl sp]
  have "cpu_sp s \<noteq> cpu_sp s - 1" by simp
  then show ?thesis
    by (simp add: pull push_word_fields)
qed

text \<open>
  Claim C7 on the booted machine with the stack pointer at 0: the high byte goes to
  \<open>$0100\<close>, the low byte to \<open>$01FF\<close>, the stack pointer wraps to \<open>0xFE\<close> and back.
\<close>

theorem push_word_pull_word_witness:
  "stack_in_ram (mem (booted\<lparr>cpu_sp := 0x00\<rparr>))
   \<and> fst (cpu_pull_word (cpu_push_word 0xABCD (booted\<lparr>cpu_sp := 0x00\<rparr>))) = 0xABCD
   \<and> cpu_sp (snd (cpu_pull_word (cpu_push_word 0xABCD (booted\<lparr>cpu_sp := 0x00\<rparr>)))) = 0x00
   \<and> cpu_sp (cpu_push_word 0xABCD (booted\<lparr>cpu_sp := 0x00\<rparr>)) = 0xFE
   \<and> memory (mem (cpu_push_word 0xABCD (booted\<lparr>cpu_sp := 0x00\<rparr>))) 0x0100 = 0xAB
   \<and> memory (mem (cpu_push_word 0xABCD (booted\<lparr>cpu_sp := 0x00\<rparr>))) 0x01FF = 0xCD"
proof -
  have h: "stack_in_ram (mem (booted\<lparr>cpu_sp := 0x00\<rparr>))" by simp
  from push_word_pull_word [OF h, of "0xABCD"] h show ?thesis
    by (simp add: unsigned_minus_1_eq_mask mask_eq_exp_minus_1)
qed

section \<open>Single steps\<close>

lemma kernal_switch_fields [simp]:
  "mem (cpu_emulate_kernal_switch address s) = mem s"
  "cpu_sp (cpu_emulate_kernal_switch address s) = cpu_sp s"
  "cpu_pc (cpu_emulate_kernal_switch address s) = cpu_pc s"
  "cycles (cpu_emulate_kernal_switch address s) = cycles s"
  by (simp_all add: cpu_emulate_kernal_switch_def getchar_def kbhit_def Let_def
        split: list.split)

lemma pull_byte_fields [simp]:
  "cpu_sp (snd (cpu_pull_byte s)) = cpu_sp s + 1"
  "mem (snd (cpu_pull_byte s)) = mem s"
  "cycles (snd (cpu_pull_byte s)) = cycles s"
  by (simp_all add: cpu_pull_byte_def Let_def)

lemma pull_word_fields [simp]:
  "cpu_sp (snd (cpu_pull_word s)) = cpu_sp s + 2"
  "mem (snd (cpu_pull_word s)) = mem s"
  "cycles (snd (cpu_pull_word s)) = cycles s"
  by (simp_all add: cpu_pull_word_def Let_def split_beta)

lemma emulate_kernal_fields [simp]:
  "mem (cpu_emulate_kernal address s) = mem s"
  "cpu_sp (cpu_emulate_kernal address s) = cpu_sp s + 2"
  "cycles (cpu_emulate_kernal address s) = cycles s"
  "cpu_pc (cpu_emulate_kernal address s) = fst (cpu_pull_word (cpu_emulate_kernal_switch address s)) + 1"
  by (simp_all add: cpu_emulate_kernal_def Let_def split_beta)

lemma jsr_tables [simp]:
  "opcode_modes 0x20 = ADDR_ABSOLUTE" "opcode_sizes 0x20 = 3" "opcode_cycles 0x20 = 6"
  by (simp_all add: opcode_modes_def opcode_sizes_def opcode_cycles_def)

lemma rts_tables [simp]:
  "opcode_modes 0x60 = ADDR_IMPLIED" "opcode_sizes 0x60 = 1" "opcode_cycles 0x60 = 6"
  by (simp_all add: opcode_modes_def opcode_sizes_def opcode_cycles_def)

lemma cpu_step_jsr:
  assumes "memory_read (mem s) (cpu_pc s) = 0x20"
  shows "cpu_step s =
    (let address = ucast (memory_read (mem s) (cpu_pc s + 1))
                   OR push_bit 8 (ucast (memory_read (mem s) (cpu_pc s + 2)))
     in if address \<ge> 0xFF00
        then (cpu_emulate_kernal address (cpu_push_word (cpu_pc s + 2) s))
               \<lparr>cycles := cycles s + 6\<rparr>
        else (cpu_push_word (cpu_pc s + 1) s)\<lparr>cpu_pc := address, cycles := cycles s + 6\<rparr>)"
proof -
  have "cpu_pc s + 2 - 1 = cpu_pc s + 1" by simp
  then show ?thesis
    by (simp only: cpu_step_def assms cpu_step_switch_def cpu_get_operand_address_def Let_def
          jsr_tables AddressingMode.case)
       (simp add: push_word_fields)
qed

lemma cpu_step_rts:
  assumes "memory_read (mem s) (cpu_pc s) = 0x60"
  shows "cpu_step s =
    (snd (cpu_pull_word s))\<lparr>cpu_pc := fst (cpu_pull_word s) + 1, cycles := cycles s + 6\<rparr>"
  by (simp add: cpu_step_def assms cpu_step_switch_def cpu_get_operand_address_def Let_def
      split_beta)

lemma maps_agree_memory_update [simp]: "maps_agree (m\<lparr>memory := f\<rparr>) = maps_agree m"
  by (simp add: maps_agree_def memory_read_map_update)

lemma maps_agree_load [simp]: "maps_agree (memory_load address data len m) = maps_agree m"
  by (simp add: memory_load_def)

lemma stack_in_ram_memory_update [simp]: "stack_in_ram (m\<lparr>memory := f\<rparr>) = stack_in_ram m"
  by (simp add: stack_in_ram_def)

lemma stack_in_ram_load [simp]: "stack_in_ram (memory_load address data len m) = stack_in_ram m"
  by (simp add: memory_load_def)

lemma cpu_set_pc_fields [simp]:
  "cpu_pc (cpu_set_pc address s) = address"
  "cpu_sp (cpu_set_pc address s) = cpu_sp s"
  "cpu_a (cpu_set_pc address s) = cpu_a s"
  "mem (cpu_set_pc address s) = mem s"
  "cycles (cpu_set_pc address s) = cycles s"
  "stdin (cpu_set_pc address s) = stdin s"
  "stdout (cpu_set_pc address s) = stdout s"
  by (simp_all add: cpu_set_pc_def)

text \<open>The JSR step at \<open>p\<close> into the KERNAL range, and the JSR step elsewhere.\<close>

lemma jsr_trap_step:
  assumes "stack_in_ram (mem s)" and "memory_read (mem s) (cpu_pc s) = 0x20"
    and "ucast (memory_read (mem s) (cpu_pc s + 1))
         OR push_bit 8 (ucast (memory_read (mem s) (cpu_pc s + 2))) \<ge> (0xFF00 :: 16 word)"
  shows "cpu_pc (cpu_step s) = cpu_pc s + 3"
    and "cpu_sp (cpu_step s) = cpu_sp s"
    and "memory (mem (cpu_step s)) (0x0100 + ucast (cpu_sp s)) = ucast (drop_bit 8 (cpu_pc s + 2))"
    and "memory (mem (cpu_step s)) (0x0100 + ucast (cpu_sp s - 1)) = ucast (cpu_pc s + 2)"
proof -
  define target :: "16 word" where "target = ucast (memory_read (mem s) (cpu_pc s + 1))
                      OR push_bit 8 (ucast (memory_read (mem s) (cpu_pc s + 2)))"
  let ?s' = "cpu_emulate_kernal_switch target (cpu_push_word (cpu_pc s + 2) s)"
  have ne: "cpu_sp s \<noteq> cpu_sp s - 1" by simp
  have t: "target \<ge> 0xFF00" using assms(3) by (simp add: target_def)
  have "fst (cpu_pull_word ?s') = cpu_pc s + 2"
    by (rule pull_word_after_push [OF assms(1)]) (simp_all add: push_word_fields)
  with t ne show "cpu_pc (cpu_step s) = cpu_pc s + 3"
    and "cpu_sp (cpu_step s) = cpu_sp s"
    and "memory (mem (cpu_step s)) (0x0100 + ucast (cpu_sp s)) = ucast (drop_bit 8 (cpu_pc s + 2))"
    and "memory (mem (cpu_step s)) (0x0100 + ucast (cpu_sp s - 1)) = ucast (cpu_pc s + 2)"
    by (simp_all add: cpu_step_jsr [OF assms(2)] target_def [symmetric] push_word_fields)
qed

lemma jsr_plain_step:
  assumes "memory_read (mem s) (cpu_pc s) = 0x20"
    and "ucast (memory_read (mem s) (cpu_pc s + 1))
         OR push_bit 8 (ucast (memory_read (mem s) (cpu_pc s + 2))) = target"
    and "target < 0xFF00"
  shows "cpu_step s = (cpu_push_word (cpu_pc s + 1) s)\<lparr>cpu_pc := target, cycles := cycles s + 6\<rparr>"
  using assms(3)
  by (simp add: cpu_step_jsr [OF assms(1)] assms(2) not_le [symmetric])

text \<open>The RTS step right after a plain JSR step at \<open>p\<close>.\<close>

lemma rts_after_jsr_step:
  assumes "stack_in_ram (mem s)"
    and "s' = (cpu_push_word (cpu_pc s + 1) s)\<lparr>cpu_pc := target, cycles := cycles s + 6\<rparr>"
    and "memory_read (mem s') target = 0x60"
  shows "cpu_step s' = s'\<lparr>cpu_sp := cpu_sp s, cpu_pc := cpu_pc s + 2, cycles := cycles s + 12\<rparr>"
proof -
  have mem: "mem s' = mem (cpu_push_word (cpu_pc s + 1) s)" and sp: "cpu_sp s' = cpu_sp s - 2"
    by (simp_all add: assms(2) push_word_fields)
  note pull = pull_word_after_push [OF assms(1) mem sp]
  have "memory_read (mem s') (cpu_pc s') = 0x60"
    using assms(3) by (simp add: assms(2))
  from cpu_step_rts [OF this] show ?thesis
    by (simp add: pull) (simp add: assms(2))
qed

text \<open>A step on an opcode that the \<open>switch\<close> does not list.\<close>

lemma cpu_step_unlisted:
  assumes "memory_read (mem s) (cpu_pc s) = opcode" and "opcode \<notin> set listed_opcodes"
  shows "cpu_step s = s\<lparr>stdout := stdout s @ [Unimplemented_opcode opcode (cpu_pc s)],
                          cpu_pc := cpu_pc s + 1, cycles := cycles s + 2\<rparr>"
proof -
  from assms(2) have t: "opcode_modes opcode = ADDR_IMPLIED" "opcode_sizes opcode = 1"
      "opcode_cycles opcode = 2"
    by (simp_all add: listed_opcodes_def opcode_modes_def opcode_sizes_def opcode_cycles_def)
  from assms(2) show ?thesis
    by (simp add: cpu_step_def assms(1) t cpu_get_operand_address_def Let_def)
       (simp add: cpu_step_switch_def listed_opcodes_def)
qed

section \<open>JSR into the KERNAL and JSR elsewhere\<close>

text \<open>
  Claim C9. A JSR at \<open>p\<close> whose operand is at least \<open>0xFF00\<close> pushes \<open>p + 2\<close> (high
  byte at \<open>0x0100 + sp\<close>, low byte below it), and the step ends with \<open>pc = p + 3\<close> and
  the stack pointer it started with. A JSR at \<open>p\<close> to a lower address pushes
  \<open>p + 1\<close> and jumps; if an RTS is fetched there, the next step ends with
  \<open>pc = p + 2\<close> and the stack pointer restored. The stack page is served from
  \<open>memory\<close>; addresses are 16-bit and wrap.
\<close>

theorem jsr_kernal_trap_return_address:
  assumes "stack_in_ram (mem s)" and "memory_read (mem s) (cpu_pc s) = 0x20"
  shows "let target = ucast (memory_read (mem s) (cpu_pc s + 1))
                      OR push_bit 8 (ucast (memory_read (mem s) (cpu_pc s + 2)))
         in (target \<ge> 0xFF00 \<longrightarrow>
               cpu_pc (cpu_step s) = cpu_pc s + 3
               \<and> cpu_sp (cpu_step s) = cpu_sp s
               \<and> memory (mem (cpu_step s)) (0x0100 + ucast (cpu_sp s))
                   = ucast (drop_bit 8 (cpu_pc s + 2))
               \<and> memory (mem (cpu_step s)) (0x0100 + ucast (cpu_sp s - 1))
                   = ucast (cpu_pc s + 2))
          \<and> (target < 0xFF00 \<longrightarrow>
               cpu_pc (cpu_step s) = target
               \<and> cpu_sp (cpu_step s) = cpu_sp s - 2
               \<and> memory (mem (cpu_step s)) (0x0100 + ucast (cpu_sp s))
                   = ucast (drop_bit 8 (cpu_pc s + 1))
               \<and> memory (mem (cpu_step s)) (0x0100 + ucast (cpu_sp s - 1))
                   = ucast (cpu_pc s + 1)
               \<and> (memory_read (mem (cpu_step s)) target = 0x60 \<longrightarrow>
                    cpu_pc (cpu_step (cpu_step s)) = cpu_pc s + 2
                    \<and> cpu_sp (cpu_step (cpu_step s)) = cpu_sp s))"
proof -
  define target :: "16 word" where "target = ucast (memory_read (mem s) (cpu_pc s + 1))
                      OR push_bit 8 (ucast (memory_read (mem s) (cpu_pc s + 2)))"
  have ne: "cpu_sp s \<noteq> cpu_sp s - 1" by simp
  have trap: "cpu_pc (cpu_step s) = cpu_pc s + 3 \<and> cpu_sp (cpu_step s) = cpu_sp s
      \<and> memory (mem (cpu_step s)) (0x0100 + ucast (cpu_sp s)) = ucast (drop_bit 8 (cpu_pc s + 2))
      \<and> memory (mem (cpu_step s)) (0x0100 + ucast (cpu_sp s - 1)) = ucast (cpu_pc s + 2)"
    if "target \<ge> 0xFF00"
    using jsr_trap_step [OF assms] that unfolding target_def by simp
  have plain: "cpu_pc (cpu_step s) = target \<and> cpu_sp (cpu_step s) = cpu_sp s - 2
      \<and> memory (mem (cpu_step s)) (0x0100 + ucast (cpu_sp s)) = ucast (drop_bit 8 (cpu_pc s + 1))
      \<and> memory (mem (cpu_step s)) (0x0100 + ucast (cpu_sp s - 1)) = ucast (cpu_pc s + 1)
      \<and> (memory_read (mem (cpu_step s)) target = 0x60 \<longrightarrow>
            cpu_pc (cpu_step (cpu_step s)) = cpu_pc s + 2
            \<and> cpu_sp (cpu_step (cpu_step s)) = cpu_sp s)"
    if t: "target < 0xFF00"
  proof -
    note step = jsr_plain_step [OF assms(2) target_def [symmetric] t]
    have "cpu_pc (cpu_step (cpu_step s)) = cpu_pc s + 2
            \<and> cpu_sp (cpu_step (cpu_step s)) = cpu_sp s"
      if "memory_read (mem (cpu_step s)) target = 0x60"
      using rts_after_jsr_step [OF assms(1) step that] by simp
    with ne show ?thesis
      by (simp add: step push_word_fields)
  qed
  from trap plain show ?thesis
    unfolding target_def [symmetric] Let_def by blast
qed

lemma booted_tables [simp]: "stack_in_ram (mem booted)" "maps_agree (mem booted)"
  by simp_all

section \<open>The JSR/RTS scenario\<close>

lemma e2e_2_fields:
  "cpu_pc e2e_2 = 0xC000" "cpu_sp e2e_2 = 0xFD" "cycles e2e_2 = 0" "stdout e2e_2 = []"
  "stack_in_ram (mem e2e_2)" "maps_agree (mem e2e_2)"
  by (simp_all add: e2e_2_def)

lemma e2e_2_memory:
  "memory_read (mem e2e_2) 0xC000 = 0x20"
  "memory_read (mem e2e_2) 0xC001 = 0x10"
  "memory_read (mem e2e_2) 0xC002 = 0xC0"
  "memory_read (mem e2e_2) 0xC003 = 0xEA"
  "memory_read (mem e2e_2) 0xC010 = 0x60"
  by (simp_all add: e2e_2_def memory_read_agree) (simp_all add: memory_load_def load_length_def)

text \<open>The three steps of the scenario: JSR, RTS, and the byte \<open>$C0\<close> at \<open>$C002\<close>.\<close>

lemma e2e_2_step_1:
  "cpu_step e2e_2 = (cpu_push_word 0xC001 e2e_2)\<lparr>cpu_pc := 0xC010, cycles := 6\<rparr>"
  using jsr_plain_step [of e2e_2 "0xC010"]
  by (simp add: e2e_2_fields e2e_2_memory)

lemma e2e_2_step_1_memory:
  "memory_read (mem (cpu_step e2e_2)) 0xC002 = 0xC0"
  "memory_read (mem (cpu_step e2e_2)) 0xC003 = 0xEA"
  "memory_read (mem (cpu_step e2e_2)) 0xC010 = 0x60"
  "memory (mem (cpu_step e2e_2)) 0x01FD = 0xC0"
  "memory (mem (cpu_step e2e_2)) 0x01FC = 0x01"
  by (simp_all add: e2e_2_step_1 push_word_fields e2e_2_fields memory_read_agree)
     (simp_all add: e2e_2_def memory_load_def load_length_def)

lemma e2e_2_step_2:
  "cpu_step (cpu_step e2e_2) = (cpu_step e2e_2)\<lparr>cpu_sp := 0xFD, cpu_pc := 0xC002, cycles := 12\<rparr>"
proof -
  have ram: "stack_in_ram (mem e2e_2)" by (rule e2e_2_fields)
  have m: "memory_read (mem (cpu_step e2e_2)) 0xC010 = 0x60" by (rule e2e_2_step_1_memory)
  have s': "cpu_step e2e_2 = (cpu_push_word (cpu_pc e2e_2 + 1) e2e_2)
              \<lparr>cpu_pc := 0xC010, cycles := cycles e2e_2 + 6\<rparr>"
    by (simp add: e2e_2_step_1 e2e_2_fields)
  from rts_after_jsr_step [OF ram s' m] show ?thesis
    by (simp add: e2e_2_fields)
qed

lemma e2e_2_step_3:
  "cpu_step (cpu_step (cpu_step e2e_2)) =
     (cpu_step e2e_2)\<lparr>cpu_sp := 0xFD, cpu_pc := 0xC003, cycles := 14,
        stdout := [Unimplemented_opcode 0xC0 0xC002]\<rparr>"
proof -
  have "stdout (cpu_step e2e_2) = []"
    by (simp add: e2e_2_step_1 push_word_fields e2e_2_fields)
  with cpu_step_unlisted [of "cpu_step (cpu_step e2e_2)" "0xC0"] show ?thesis
    by (simp add: e2e_2_step_2 e2e_2_step_1_memory listed_opcodes_def)
qed

text \<open>
  Claim C1 (scenario E2E-2) on the code. The JSR step at \<open>$C000\<close> pushes \<open>$C001\<close>, the
  address of the middle byte of the JSR: the top two stack bytes are \<open>$C0\<close> at \<open>$01FD\<close>
  and \<open>$01\<close> at \<open>$01FC\<close>, where the claim has \<open>$C0\<close> and \<open>$02\<close>. The RTS step
  therefore resumes at \<open>$C002\<close>, on the last byte of the JSR; the third step takes that
  byte, \<open>$C0\<close>, as an opcode the \<open>switch\<close> does not list, reports it and moves on by
  one. Only then is \<open>pc = $C003\<close>, with \<open>sp = 0xFD\<close> and \<open>0xEA\<close> the next opcode.
\<close>

theorem e2e_2_jsr_pushes_pc_plus_1:
  "cpu_pc (cpu_step e2e_2) = 0xC010
   \<and> cpu_sp (cpu_step e2e_2) = 0xFB
   \<and> memory (mem (cpu_step e2e_2)) 0x01FD = 0xC0
   \<and> memory (mem (cpu_step e2e_2)) 0x01FC = 0x01
   \<and> cpu_pc (cpu_step (cpu_step e2e_2)) = 0xC002
   \<and> cpu_sp (cpu_step (cpu_step e2e_2)) = 0xFD
   \<and> stdout (cpu_step (cpu_step (cpu_step e2e_2))) = [Unimplemented_opcode 0xC0 0xC002]
   \<and> cpu_pc (cpu_step (cpu_step (cpu_step e2e_2))) = 0xC003
   \<and> cpu_sp (cpu_step (cpu_step (cpu_step e2e_2))) = 0xFD
   \<and> memory_read (mem (cpu_step (cpu_step (cpu_step e2e_2)))) 0xC003 = 0xEA"
proof -
  have 1: "cpu_pc (cpu_step e2e_2) = 0xC010" "cpu_sp (cpu_step e2e_2) = 0xFB"
    by (simp_all add: e2e_2_step_1 push_word_fields e2e_2_fields)
  have 2: "cpu_pc (cpu_step (cpu_step e2e_2)) = 0xC002"
      "cpu_sp (cpu_step (cpu_step e2e_2)) = 0xFD"
    by (simp_all add: e2e_2_step_2)
  have 3: "stdout (cpu_step (cpu_step (cpu_step e2e_2))) = [Unimplemented_opcode 0xC0 0xC002]"
      "cpu_pc (cpu_step (cpu_step (cpu_step e2e_2))) = 0xC003"
      "cpu_sp (cpu_step (cpu_step (cpu_step e2e_2))) = 0xFD"
      "memory_read (mem (cpu_step (cpu_step (cpu_step e2e_2)))) 0xC003 = 0xEA"
    by (simp_all add: e2e_2_step_3 e2e_2_step_1_memory)
  from 1 2 3 e2e_2_step_1_memory(4,5) show ?thesis by simp
qed

text \<open>
  Claim C9 on the booted machine: \<open>JSR $FFD2\<close> at \<open>$0800\<close> ends at \<open>$0803\<close> with
  \<open>$0802\<close> left on the stack and the stack pointer unchanged; \<open>JSR $C010\<close> at
  \<open>$C000\<close> with an RTS at \<open>$C010\<close> comes back to \<open>$C002\<close>.
\<close>

theorem jsr_kernal_trap_return_address_witness:
  "stack_in_ram (mem (cpu_set_pc 0x0800
      (booted\<lparr>mem := memory_load 0x0800 [0x20, 0xD2, 0xFF] 3 (mem booted)\<rparr>)))
   \<and> memory_read (memory_load 0x0800 [0x20, 0xD2, 0xFF] 3 (mem booted)) 0x0800 = 0x20
   \<and> (ucast (memory_read (memory_load 0x0800 [0x20, 0xD2, 0xFF] 3 (mem booted)) 0x0801)
        OR push_bit 8 (ucast (memory_read (memory_load 0x0800 [0x20, 0xD2, 0xFF] 3 (mem booted)) 0x0802))
       :: 16 word) = 0xFFD2
   \<and> cpu_pc (cpu_step (cpu_set_pc 0x0800
         (booted\<lparr>mem := memory_load 0x0800 [0x20, 0xD2, 0xFF] 3 (mem booted)\<rparr>))) = 0x0803
   \<and> cpu_sp (cpu_step (cpu_set_pc 0x0800
         (booted\<lparr>mem := memory_load 0x0800 [0x20, 0xD2, 0xFF] 3 (mem booted)\<rparr>))) = 0xFD
   \<and> memory (mem (cpu_step (cpu_set_pc 0x0800
         (booted\<lparr>mem := memory_load 0x0800 [0x20, 0xD2, 0xFF] 3 (mem booted)\<rparr>)))) 0x01FD = 0x08
   \<and> memory (mem (cpu_step (cpu_set_pc 0x0800
         (booted\<lparr>mem := memory_load 0x0800 [0x20, 0xD2, 0xFF] 3 (mem booted)\<rparr>)))) 0x01FC = 0x02
   \<and> stack_in_ram (mem e2e_2)
   \<and> memory_read (mem e2e_2) (cpu_pc e2e_2) = 0x20
   \<and> (ucast (memory_read (mem e2e_2) (cpu_pc e2e_2 + 1))
        OR push_bit 8 (ucast (memory_read (mem e2e_2) (cpu_pc e2e_2 + 2))) :: 16 word) = 0xC010
   \<and> memory_read (mem (cpu_step e2e_2)) 0xC010 = 0x60
   \<and> cpu_pc (cpu_step (cpu_step e2e_2)) = 0xC002
   \<and> cpu_sp (cpu_step (cpu_step e2e_2)) = cpu_sp e2e_2"
proof -
  define s where "s = cpu_set_pc 0x0800
      (booted\<lparr>mem := memory_load 0x0800 [0x20, 0xD2, 0xFF] 3 (mem booted)\<rparr>)"
  have h1: "stack_in_ram (mem s)" by (simp add: s_def)
  have r: "memory_read (mem s) 0x0800 = 0x20" "memory_read (mem s) 0x0801 = 0xD2"
      "memory_read (mem s) 0x0802 = 0xFF"
    by (simp_all add: s_def memory_read_agree) (simp_all add: memory_load_def load_length_def)
  have h2: "memory_read (mem s) (cpu_pc s) = 0x20" using r by (simp add: s_def)
  have pc: "cpu_pc s = 0x0800" "cpu_sp s = 0xFD" by (simp_all add: s_def)
  from jsr_kernal_trap_return_address [OF h1 h2] h1 r
  have trap: "stack_in_ram (mem s)
    \<and> memory_read (mem s) 0x0800 = 0x20
    \<and> (ucast (memory_read (mem s) 0x0801) OR push_bit 8 (ucast (memory_read (mem s) 0x0802))
        :: 16 word) = 0xFFD2
    \<and> cpu_pc (cpu_step s) = 0x0803 \<and> cpu_sp (cpu_step s) = 0xFD
    \<and> memory (mem (cpu_step s)) 0x01FD = 0x08 \<and> memory (mem (cpu_step s)) 0x01FC = 0x02"
    by (simp add: pc Let_def)
  have g1: "stack_in_ram (mem e2e_2)" by (rule e2e_2_fields)
  have g2: "memory_read (mem e2e_2) (cpu_pc e2e_2) = 0x20"
    by (simp add: e2e_2_fields e2e_2_memory)
  have g3: "(ucast (memory_read (mem e2e_2) (cpu_pc e2e_2 + 1))
        OR push_bit 8 (ucast (memory_read (mem e2e_2) (cpu_pc e2e_2 + 2))) :: 16 word) = 0xC010"
    by (simp add: e2e_2_fields e2e_2_memory)
  have g4: "memory_read (mem (cpu_step e2e_2)) 0xC010 = 0x60" by (rule e2e_2_step_1_memory)
  from jsr_kernal_trap_return_address [OF g1 g2] g3 g4
  have "cpu_pc (cpu_step (cpu_step e2e_2)) = 0xC002
      \<and> cpu_sp (cpu_step (cpu_step e2e_2)) = cpu_sp e2e_2"
    by (simp add: Let_def e2e_2_fields)
  with trap g1 g2 g3 g4 show ?thesis
    unfolding s_def by (simp add: s_def)
qed

section \<open>Load, compare, branch and jump steps\<close>

lemma set_zn_fields [simp]:
  "cpu_pc (set_zn r s) = cpu_pc s"
  "cpu_a (set_zn r s) = cpu_a s"
  "cpu_sp (set_zn r s) = cpu_sp s"
  "cpu_c (set_zn r s) = cpu_c s"
  "cpu_z (set_zn r s) = of_bool (r = 0)"
  "cpu_n (set_zn r s) = of_bool (r AND 0x80 \<noteq> 0)"
  "mem (set_zn r s) = mem s"
  "cycles (set_zn r s) = cycles s"
  "stdout (set_zn r s) = stdout s"
  by (simp_all add: set_zn_def)

lemma cpu_step_lda_immediate:
  assumes "memory_read (mem s) (cpu_pc s) = 0xA9"
  shows "cpu_step s =
    (set_zn (memory_read (mem s) (cpu_pc s + 1)) (s\<lparr>cpu_a := memory_read (mem s) (cpu_pc s + 1)\<rparr>))
      \<lparr>cpu_pc := cpu_pc s + 2, cycles := cycles s + 2\<rparr>"
proof -
  have t: "opcode_modes 0xA9 = ADDR_IMMEDIATE" "opcode_sizes 0xA9 = 2" "opcode_cycles 0xA9 = 2"
    by (simp_all add: opcode_modes_def opcode_sizes_def opcode_cycles_def)
  show ?thesis
    by (simp add: cpu_step_def assms t cpu_step_switch_def cpu_get_operand_address_def Let_def)
qed

lemma cpu_step_cmp_immediate:
  assumes "memory_read (mem s) (cpu_pc s) = 0xC9"
  shows "cpu_step s =
    (set_zn (cpu_a s - memory_read (mem s) (cpu_pc s + 1))
       (s\<lparr>cpu_c := of_bool (cpu_a s \<ge> memory_read (mem s) (cpu_pc s + 1))\<rparr>))
      \<lparr>cpu_pc := cpu_pc s + 2, cycles := cycles s + 2\<rparr>"
proof -
  have t: "opcode_modes 0xC9 = ADDR_IMMEDIATE" "opcode_sizes 0xC9 = 2" "opcode_cycles 0xC9 = 2"
    by (simp_all add: opcode_modes_def opcode_sizes_def opcode_cycles_def)
  show ?thesis
    by (simp add: cpu_step_def assms t cpu_step_switch_def cpu_get_operand_address_def Let_def)
qed

lemma cpu_step_beq:
  assumes "memory_read (mem s) (cpu_pc s) = 0xF0"
  shows "cpu_step s =
    (if cpu_z s \<noteq> 0
     then s\<lparr>cpu_pc := cpu_pc s + 2 + scast (memory_read (mem s) (cpu_pc s + 1)),
            cycles := cycles s + 2\<rparr>
     else s\<lparr>cpu_pc := cpu_pc s + 2, cycles := cycles s + 2\<rparr>)"
proof -
  have t: "opcode_modes 0xF0 = ADDR_RELATIVE" "opcode_sizes 0xF0 = 2" "opcode_cycles 0xF0 = 2"
    by (simp_all add: opcode_modes_def opcode_sizes_def opcode_cycles_def)
  show ?thesis
    by (simp add: cpu_step_def assms t cpu_step_switch_def cpu_get_operand_address_def Let_def
        branch_def)
qed

lemma cpu_step_jmp_indirect:
  assumes "memory_read (mem s) (cpu_pc s) = 0x6C"
  shows "cpu_step s =
    s\<lparr>cpu_pc := cpu_get_operand_address ADDR_INDIRECT s, cycles := cycles s + 5\<rparr>"
proof -
  have t: "opcode_modes 0x6C = ADDR_INDIRECT" "opcode_sizes 0x6C = 3" "opcode_cycles 0x6C = 5"
    by (simp_all add: opcode_modes_def opcode_sizes_def opcode_cycles_def)
  show ?thesis
    by (simp add: cpu_step_def assms t cpu_step_switch_def Let_def)
qed

section \<open>Immediate load and compare (scenario E2E-1)\<close>

lemma e2e_1_fields:
  "cpu_pc e2e_1 = 0x0800" "maps_agree (mem e2e_1)"
  by (simp_all add: e2e_1_def)

lemma e2e_1_memory:
  "memory_read (mem e2e_1) 0x0800 = 0xA9" "memory_read (mem e2e_1) 0x0801 = 0x42"
  "memory_read (mem e2e_1) 0x0802 = 0xC9" "memory_read (mem e2e_1) 0x0803 = 0x42"
  "memory_read (mem e2e_1) 0x0804 = 0xF0" "memory_read (mem e2e_1) 0x0805 = 0x02"
  "memory_read (mem e2e_1) 0x0806 = 0x00" "memory_read (mem e2e_1) 0x0807 = 0x00"
  "memory_read (mem e2e_1) 0x0808 = 0xEA"
  by (simp_all add: e2e_1_def memory_read_agree) (simp_all add: memory_load_def load_length_def)

text \<open>
  The first three steps of the program \<open>A9 42 C9 42 F0 02\<close> at \<open>$0800\<close>, and a further
  step on an \<open>EA\<close> at \<open>$0808\<close>, from any state that reads these bytes there.
\<close>

lemma lda_cmp_beq_steps:
  assumes "cpu_pc s = 0x0800"
    and "memory_read (mem s) 0x0800 = 0xA9" and "memory_read (mem s) 0x0801 = 0x42"
    and "memory_read (mem s) 0x0802 = 0xC9" and "memory_read (mem s) 0x0803 = 0x42"
    and "memory_read (mem s) 0x0804 = 0xF0" and "memory_read (mem s) 0x0805 = 0x02"
  shows "cpu_step (cpu_step (cpu_step s)) =
           s\<lparr>cpu_a := 0x42, cpu_c := 1, cpu_z := 1, cpu_n := 0, cpu_pc := 0x0808,
             cycles := cycles s + 6\<rparr>"
proof -
  have 1: "cpu_step s = s\<lparr>cpu_a := 0x42, cpu_z := 0, cpu_n := 0, cpu_pc := 0x0802,
             cycles := cycles s + 2\<rparr>"
    using assms by (simp add: cpu_step_lda_immediate set_zn_def)
  have 2: "cpu_step (cpu_step s) = s\<lparr>cpu_a := 0x42, cpu_c := 1, cpu_z := 1, cpu_n := 0,
             cpu_pc := 0x0804, cycles := cycles s + 4\<rparr>"
    unfolding 1 using assms by (simp add: cpu_step_cmp_immediate set_zn_def)
  show ?thesis
    unfolding 2 using assms by (simp add: cpu_step_beq)
qed

lemma nop_step_at_0808:
  assumes "cpu_pc s = 0x0808" and "memory_read (mem s) 0x0808 = 0xEA"
  shows "cpu_step s = s\<lparr>stdout := stdout s @ [Unimplemented_opcode 0xEA 0x0808],
                          cpu_pc := 0x0809, cycles := cycles s + 2\<rparr>"
  using cpu_step_unlisted [of s "0xEA"] assms by (simp add: listed_opcodes_def)

text \<open>
  Claim C3 says that \<open>pc = $0808\<close> after four steps. The third step, the taken BEQ, is
  the one that lands on \<open>$0808\<close>; the fourth executes the \<open>EA\<close> there, so after four
  steps \<open>pc = $0809\<close>.
\<close>

theorem e2e_1_four_steps_counterexample:
  "cpu_pc (cpu_step (cpu_step (cpu_step (cpu_step e2e_1)))) = 0x0809
   \<and> cpu_pc (cpu_step (cpu_step (cpu_step (cpu_step e2e_1)))) \<noteq> 0x0808"
proof -
  have 3: "cpu_step (cpu_step (cpu_step e2e_1)) =
      e2e_1\<lparr>cpu_a := 0x42, cpu_c := 1, cpu_z := 1, cpu_n := 0, cpu_pc := 0x0808,
             cycles := cycles e2e_1 + 6\<rparr>"
    by (rule lda_cmp_beq_steps) (simp_all add: e2e_1_fields e2e_1_memory)
  show ?thesis
    unfolding 3 by (simp add: nop_step_at_0808 e2e_1_memory)
qed

text \<open>
  Claim C3 as amended. With the program bytes \<open>A9 42 C9 42 F0 02 00 00 EA\<close> read at
  \<open>$0800..$0808\<close> and \<open>pc = $0800\<close>, after three cpu_step calls \<open>a = 0x42\<close>, \<open>Z = 1\<close>,
  \<open>C = 1\<close>, \<open>N = 0\<close> and \<open>pc = $0808\<close>: the branch is taken over the two \<open>00\<close> bytes
  and lands on the \<open>EA\<close>. A fourth step takes the \<open>EA\<close> as a one-byte opcode that the
  \<open>switch\<close> does not list: it leaves \<open>pc = $0809\<close> and the same \<open>a\<close>, \<open>Z\<close>, \<open>C\<close>, \<open>N\<close>.
\<close>

theorem e2e_1_three_steps:
  assumes "cpu_pc s = 0x0800"
    and "memory_read (mem s) 0x0800 = 0xA9 \<and> memory_read (mem s) 0x0801 = 0x42
         \<and> memory_read (mem s) 0x0802 = 0xC9 \<and> memory_read (mem s) 0x0803 = 0x42
         \<and> memory_read (mem s) 0x0804 = 0xF0 \<and> memory_read (mem s) 0x0805 = 0x02
         \<and> memory_read (mem s) 0x0806 = 0x00 \<and> memory_read (mem s) 0x0807 = 0x00
         \<and> memory_read (mem s) 0x0808 = 0xEA"
  shows "cpu_a (cpu_step (cpu_step (cpu_step s))) = 0x42
       \<and> cpu_z (cpu_step (cpu_step (cpu_step s))) = 1
       \<and> cpu_c (cpu_step (cpu_step (cpu_step s))) = 1
       \<and> cpu_n (cpu_step (cpu_step (cpu_step s))) = 0
       \<and> cpu_pc (cpu_step (cpu_step (cpu_step s))) = 0x0808
       \<and> cpu_a (cpu_step (cpu_step (cpu_step (cpu_step s)))) = 0x42
       \<and> cpu_z (cpu_step (cpu_step (cpu_step (cpu_step s)))) = 1
       \<and> cpu_c (cpu_step (cpu_step (cpu_step (cpu_step s)))) = 1
       \<and> cpu_n (cpu_step (cpu_step (cpu_step (cpu_step s)))) = 0
       \<and> cpu_pc (cpu_step (cpu_step (cpu_step (cpu_step s)))) = 0x0809"
proof -
  have 3: "cpu_step (cpu_step (cpu_step s)) =
      s\<lparr>cpu_a := 0x42, cpu_c := 1, cpu_z := 1, cpu_n := 0, cpu_pc := 0x0808,
        cycles := cycles s + 6\<rparr>"
    using assms by (intro lda_cmp_beq_steps) simp_all
  show ?thesis
    unfolding 3 using assms(2) by (simp add: nop_step_at_0808)
qed

text \<open>Claim C3 as amended, on the booted machine with the program loaded.\<close>

theorem e2e_1_three_steps_witness:
  "cpu_pc e2e_1 = 0x0800
   \<and> memory_read (mem e2e_1) 0x0800 = 0xA9 \<and> memory_read (mem e2e_1) 0x0801 = 0x42
   \<and> memory_read (mem e2e_1) 0x0802 = 0xC9 \<and> memory_read (mem e2e_1) 0x0803 = 0x42
   \<and> memory_read (mem e2e_1) 0x0804 = 0xF0 \<and> memory_read (mem e2e_1) 0x0805 = 0x02
   \<and> memory_read (mem e2e_1) 0x0806 = 0x00 \<and> memory_read (mem e2e_1) 0x0807 = 0x00
   \<and> memory_read (mem e2e_1) 0x0808 = 0xEA
   \<and> cpu_a (cpu_step (cpu_step (cpu_step e2e_1))) = 0x42
   \<and> cpu_z (cpu_step (cpu_step (cpu_step e2e_1))) = 1
   \<and> cpu_c (cpu_step (cpu_step (cpu_step e2e_1))) = 1
   \<and> cpu_n (cpu_step (cpu_step (cpu_step e2e_1))) = 0
   \<and> cpu_pc (cpu_step (cpu_step (cpu_step e2e_1))) = 0x0808"
proof -
  have h1: "cpu_pc e2e_1 = 0x0800" by (rule e2e_1_fields)
  have h2: "memory_read (mem e2e_1) 0x0800 = 0xA9 \<and> memory_read (mem e2e_1) 0x0801 = 0x42
         \<and> memory_read (mem e2e_1) 0x0802 = 0xC9 \<and> memory_read (mem e2e_1) 0x0803 = 0x42
         \<and> memory_read (mem e2e_1) 0x0804 = 0xF0 \<and> memory_read (mem e2e_1) 0x0805 = 0x02
         \<and> memory_read (mem e2e_1) 0x0806 = 0x00 \<and> memory_read (mem e2e_1) 0x0807 = 0x00
         \<and> memory_read (mem e2e_1) 0x0808 = 0xEA"
    by (simp add: e2e_1_memory)
  from e2e_1_three_steps [OF h1 h2] h1 h2 show ?thesis by simp
qed

section \<open>The indirect JMP\<close>

lemma le_FFFF [simp]: "(a :: 16 word) \<le> 0xFFFF"
  using unat16_less [of a] by (simp add: word_le_nat_alt)

lemma memory_write_elsewhere:
  assumes "address \<noteq> 0x0001"
  shows "memory_write address v m =
    (if basic_rom_enabled m \<and> 0xA000 \<le> address \<and> address \<le> 0xBFFF
        \<or> kernal_rom_enabled m \<and> 0xE000 \<le> address
        \<or> 0xD000 \<le> address \<and> address \<le> 0xDFFF \<and> \<not> io_enabled m \<and> char_rom_enabled m
     then m else m\<lparr>memory := (memory m)(address := v)\<rparr>)"
  using assms unat16_less [of address] by (auto simp: memory_write_def word_le_nat_alt)

lemma e2e_4_fields:
  "cpu_pc e2e_4 = 0x0800" "maps_agree (mem e2e_4)"
  by (simp_all add: e2e_4_def memory_write_elsewhere)

lemma e2e_4_memory:
  "memory_read (mem e2e_4) 0x0800 = 0x6C" "memory_read (mem e2e_4) 0x0801 = 0xFF"
  "memory_read (mem e2e_4) 0x0802 = 0x20" "memory_read (mem e2e_4) 0x20FF = 0x34"
  "memory_read (mem e2e_4) 0x2100 = 0x12" "memory_read (mem e2e_4) 0x2000 = 0xCD"
  by (simp_all add: e2e_4_fields memory_read_agree)
     (simp_all add: e2e_4_def memory_write_elsewhere memory_load_def load_length_def)

text \<open>
  Claim C6. A step on \<open>JMP (ptr)\<close> whose pointer has low byte \<open>0xFF\<close> sets \<open>pc\<close> to
  the byte at \<open>ptr\<close> as low byte and the byte at \<open>ptr AND 0xFF00\<close>, the start of the
  same page, as high byte; the byte at \<open>ptr + 1\<close> plays no part. With any other low
  byte the high byte comes from \<open>ptr + 1\<close>. In scenario E2E-4, \<open>JMP ($20FF)\<close> at
  \<open>$0800\<close> with \<open>$34\<close> at \<open>$20FF\<close>, \<open>$12\<close> at \<open>$2100\<close> and \<open>$CD\<close> at \<open>$2000\<close> ends
  with \<open>pc = $CD34\<close>.
\<close>

theorem jmp_indirect_page_boundary:
  assumes "memory_read (mem s) (cpu_pc s) = 0x6C"
    and "ptr = ucast (memory_read (mem s) (cpu_pc s + 1))
               OR push_bit 8 (ucast (memory_read (mem s) (cpu_pc s + 2)))"
  shows "(ptr AND 0xFF = 0xFF \<longrightarrow>
            cpu_pc (cpu_step s) = ucast (memory_read (mem s) ptr)
                                  OR push_bit 8 (ucast (memory_read (mem s) (ptr AND 0xFF00))))
       \<and> (ptr AND 0xFF \<noteq> 0xFF \<longrightarrow>
            cpu_pc (cpu_step s) = ucast (memory_read (mem s) ptr)
                                  OR push_bit 8 (ucast (memory_read (mem s) (ptr + 1))))
       \<and> cpu_pc (cpu_step e2e_4) = 0xCD34"
proof -
  have "cpu_pc (cpu_step e2e_4) = 0xCD34"
    by (simp add: cpu_step_jmp_indirect e2e_4_fields e2e_4_memory
        cpu_get_operand_address_def Let_def)
  then show ?thesis
    by (simp add: cpu_step_jmp_indirect assms cpu_get_operand_address_def Let_def)
qed

text \<open>A second program: \<open>JMP ($2000)\<close> at \<open>$0800\<close>, with \<open>$34\<close> at \<open>$2000\<close> and \<open>$12\<close> at \<open>$2001\<close>.\<close>

lemma jmp_2000_memory:
  "memory_read (memory_load 0x0800 [0x6C, 0x00, 0x20] 3
      (memory_write 0x2001 0x12 (memory_write 0x2000 0x34 (memory_init m)))) 0x0800 = 0x6C"
  "memory_read (memory_load 0x0800 [0x6C, 0x00, 0x20] 3
      (memory_write 0x2001 0x12 (memory_write 0x2000 0x34 (memory_init m)))) 0x0801 = 0x00"
  "memory_read (memory_load 0x0800 [0x6C, 0x00, 0x20] 3
      (memory_write 0x2001 0x12 (memory_write 0x2000 0x34 (memory_init m)))) 0x0802 = 0x20"
  "memory_read (memory_load 0x0800 [0x6C, 0x00, 0x20] 3
      (memory_write 0x2001 0x12 (memory_write 0x2000 0x34 (memory_init m)))) 0x2000 = 0x34"
  "memory_read (memory_load 0x0800 [0x6C, 0x00, 0x20] 3
      (memory_write 0x2001 0x12 (memory_write 0x2000 0x34 (memory_init m)))) 0x2001 = 0x12"
  by (simp_all add: memory_read_agree memory_write_elsewhere)
     (simp_all add: memory_load_def load_length_def)

text \<open>
  Claim C6 in scenario E2E-4, where the pointer is \<open>$20FF\<close>, and on \<open>JMP ($2000)\<close>,
  which ends with \<open>pc = $1234\<close>.
\<close>

theorem jmp_indirect_page_boundary_witness:
  "memory_read (mem e2e_4) (cpu_pc e2e_4) = 0x6C
   \<and> (ucast (memory_read (mem e2e_4) (cpu_pc e2e_4 + 1))
        OR push_bit 8 (ucast (memory_read (mem e2e_4) (cpu_pc e2e_4 + 2))) :: 16 word) = 0x20FF
   \<and> (0x20FF :: 16 word) AND 0xFF = 0xFF
   \<and> (0x20FF :: 16 word) AND 0xFF00 = 0x2000
   \<and> memory_read (mem e2e_4) 0x20FF = 0x34
   \<and> memory_read (mem e2e_4) 0x2000 = 0xCD
   \<and> memory_read (mem e2e_4) 0x2100 = 0x12
   \<and> cpu_pc (cpu_step e2e_4) = ucast (memory_read (mem e2e_4) 0x20FF)
                                 OR push_bit 8 (ucast (memory_read (mem e2e_4) 0x2000))
   \<and> cpu_pc (cpu_step e2e_4) = 0xCD34
   \<and> (0x2000 :: 16 word) AND 0xFF \<noteq> 0xFF
   \<and> cpu_pc (cpu_step (cpu_set_pc 0x0800
         (booted\<lparr>mem := memory_load 0x0800 [0x6C, 0x00, 0x20] 3
            (memory_write 0x2001 0x12 (memory_write 0x2000 0x34 (mem booted)))\<rparr>))) = 0x1234"
proof -
  have h1: "memory_read (mem e2e_4) (cpu_pc e2e_4) = 0x6C"
    by (simp add: e2e_4_fields e2e_4_memory)
  have h2: "(0x20FF :: 16 word) = ucast (memory_read (mem e2e_4) (cpu_pc e2e_4 + 1))
        OR push_bit 8 (ucast (memory_read (mem e2e_4) (cpu_pc e2e_4 + 2)))"
    by (simp add: e2e_4_fields e2e_4_memory)
  have h3: "(0x20FF :: 16 word) AND 0xFF = 0xFF" by simp
  from jmp_indirect_page_boundary [OF h1 h2] h1 h2 [symmetric] h3
  have 1: "memory_read (mem e2e_4) (cpu_pc e2e_4) = 0x6C
   \<and> (ucast (memory_read (mem e2e_4) (cpu_pc e2e_4 + 1))
        OR push_bit 8 (ucast (memory_read (mem e2e_4) (cpu_pc e2e_4 + 2))) :: 16 word) = 0x20FF
   \<and> cpu_pc (cpu_step e2e_4) = ucast (memory_read (mem e2e_4) 0x20FF)
                                 OR push_bit 8 (ucast (memory_read (mem e2e_4) 0x2000))
   \<and> cpu_pc (cpu_step e2e_4) = 0xCD34"
    by (simp add: e2e_4_memory)
  define s where "s = cpu_set_pc 0x0800
         (booted\<lparr>mem := memory_load 0x0800 [0x6C, 0x00, 0x20] 3
            (memory_write 0x2001 0x12 (memory_write 0x2000 0x34 (mem booted)))\<rparr>)"
  have g1: "memory_read (mem s) (cpu_pc s) = 0x6C"
    by (simp add: s_def jmp_2000_memory)
  have g2: "(0x2000 :: 16 word) = ucast (memory_read (mem s) (cpu_pc s + 1))
        OR push_bit 8 (ucast (memory_read (mem s) (cpu_pc s + 2)))"
    by (simp add: s_def jmp_2000_memory)
  have g3: "(0x2000 :: 16 word) AND 0xFF \<noteq> 0xFF" by simp
  have g4: "memory_read (mem s) 0x2000 = 0x34" "memory_read (mem s) 0x2001 = 0x12"
    by (simp_all add: s_def jmp_2000_memory)
  from jmp_indirect_page_boundary [OF g1 g2] g3 g4
  have 2: "cpu_pc (cpu_step s) = 0x1234"
    by simp
  from 1 2 h3 g3 show ?thesis
    unfolding s_def by (simp add: e2e_4_memory)
qed

section \<open>Running for a number of cycles\<close>

lemma opcode_cycles_bounds: "2 \<le> opcode_cycles opcode \<and> opcode_cycles opcode \<le> 6"
  by (simp add: opcode_cycles_def)

lemma unat_opcode_cycles: "2 \<le> unat (opcode_cycles opcode) \<and> unat (opcode_cycles opcode) \<le> 6"
  using opcode_cycles_bounds [of opcode] by (simp add: word_le_nat_alt)

lemma branch_cycles [simp]: "cycles (fst (branch taken address sz s)) = cycles s"
  by (simp add: branch_def)

lemma cpu_step_switch_cycles: "cycles (fst (cpu_step_switch opcode address sz s)) = cycles s"
  by (simp add: cpu_step_switch_def Let_def split_beta push_word_fields)

lemma cpu_step_cycles:
  "cycles (cpu_step s) = cycles s + ucast (opcode_cycles (memory_read (mem s) (cpu_pc s)))"
  by (simp add: cpu_step_def Let_def split_beta cpu_step_switch_cycles)

lemma cpu_step_cycles_exact:
  assumes "unat (cycles s) + 6 < 2 ^ 32"
  shows "unat (cycles (cpu_step s))
         = unat (cycles s) + unat (opcode_cycles (memory_read (mem s) (cpu_pc s)))"
proof -
  let ?c = "opcode_cycles (memory_read (mem s) (cpu_pc s))"
  have "unat (ucast ?c :: 32 word) = unat ?c"
    using unat_opcode_cycles [of "memory_read (mem s) (cpu_pc s)"]
    by (simp add: unsigned_ucast_eq take_bit_eq_mod)
  with assms unat_opcode_cycles [of "memory_read (mem s) (cpu_pc s)"] show ?thesis
    by (simp add: cpu_step_cycles unat_word_ariths)
qed

lemma cpu_step_cycles_unat:
  assumes "unat (cycles s) + 6 < 2 ^ 32"
  shows "unat (cycles s) + 2 \<le> unat (cycles (cpu_step s))"
    and "unat (cycles (cpu_step s)) \<le> unat (cycles s) + 6"
proof -
  let ?c = "opcode_cycles (memory_read (mem s) (cpu_pc s))"
  have "unat (ucast ?c :: 32 word) = unat ?c"
    using unat_opcode_cycles [of "memory_read (mem s) (cpu_pc s)"]
    by (simp add: unsigned_ucast_eq take_bit_eq_mod)
  with assms unat_opcode_cycles [of "memory_read (mem s) (cpu_pc s)"]
  have "unat (cycles (cpu_step s)) = unat (cycles s) + unat ?c"
    by (simp add: cpu_step_cycles unat_word_ariths)
  with unat_opcode_cycles [of "memory_read (mem s) (cpu_pc s)"]
  show "unat (cycles s) + 2 \<le> unat (cycles (cpu_step s))"
    and "unat (cycles (cpu_step s)) \<le> unat (cycles s) + 6"
    by simp_all
qed

text \<open>
  The loop of cpu_execute when neither the target nor a step past it can wrap the
  counter: it returns after some number \<open>k\<close> of steps, with the counter below the target
  before each of them and at most 5 past it at the end.
\<close>

lemma cpu_execute_loop_returns:
  assumes "unat target + 5 < 2 ^ 32"
  shows "\<exists>k. cpu_execute_loop target s = Some ((cpu_step ^^ k) s)
             \<and> (\<forall>j<k. cycles ((cpu_step ^^ j) s) < target)
             \<and> target \<le> cycles ((cpu_step ^^ k) s)
             \<and> (0 < k \<longrightarrow> unat (cycles ((cpu_step ^^ k) s)) \<le> unat target + 5)"
proof (induction "unat target - unat (cycles s)" arbitrary: s rule: less_induct)
  case less
  show ?case
  proof (cases "cycles s < target")
    case False
    then have "cpu_execute_loop target s = Some ((cpu_step ^^ 0) s)"
      by (subst cpu_execute_loop.simps) simp
    moreover from False have "target \<le> cycles ((cpu_step ^^ 0) s)" by simp
    ultimately show ?thesis by blast
  next
    case True
    then have lt: "unat (cycles s) < unat target" by (simp add: word_less_nat_alt)
    with assms have room: "unat (cycles s) + 6 < 2 ^ 32" by simp
    note step = cpu_step_cycles_unat [OF room]
    from lt step have "unat target - unat (cycles (cpu_step s)) < unat target - unat (cycles s)"
      by simp
    from less [OF this] obtain k where
      k: "cpu_execute_loop target (cpu_step s) = Some ((cpu_step ^^ k) (cpu_step s))"
         "\<forall>j<k. cycles ((cpu_step ^^ j) (cpu_step s)) < target"
         "target \<le> cycles ((cpu_step ^^ k) (cpu_step s))"
         "0 < k \<longrightarrow> unat (cycles ((cpu_step ^^ k) (cpu_step s))) \<le> unat target + 5"
      by blast
    have pow: "(cpu_step ^^ j) (cpu_step s) = (cpu_step ^^ Suc j) s" for j
      by (simp add: funpow_swap1)
    have 1: "cpu_execute_loop target s = Some ((cpu_step ^^ Suc k) s)"
      using True k(1) by (subst cpu_execute_loop.simps) (simp add: funpow_swap1)
    have 2: "\<forall>j<Suc k. cycles ((cpu_step ^^ j) s) < target"
    proof (intro allI impI)
      fix j assume "j < Suc k"
      show "cycles ((cpu_step ^^ j) s) < target"
      proof (cases j)
        case 0
        with True show ?thesis by simp
      next
        case (Suc i)
        with \<open>j < Suc k\<close> k(2) have "cycles ((cpu_step ^^ i) (cpu_step s)) < target" by simp
        then show ?thesis unfolding pow Suc .
      qed
    qed
    have 3: "target \<le> cycles ((cpu_step ^^ Suc k) s)"
      using k(3) unfolding pow .
    have 4: "unat (cycles ((cpu_step ^^ Suc k) s)) \<le> unat target + 5"
    proof (cases "0 < k")
      case True
      with k(4) show ?thesis unfolding pow by simp
    next
      case False
      then have "k = 0" by simp
      with step lt show ?thesis by simp
    qed
    from 1 2 3 4 show ?thesis by blast
  qed
qed

text \<open>
  Every byte that the booted machine reads is \<open>00\<close>, \<open>2F\<close>, \<open>37\<close> or \<open>EA\<close>, and the
  \<open>switch\<close> lists none of them: each step costs 2 cycles and leaves the memory alone.
\<close>

lemma booted_reads: "memory_read (mem booted) address \<in> {0x00, 0x2F, 0x37, 0xEA}"
proof -
  let ?m = "memory_init (mem program_start)"
  have ram: "memory ?m address \<in> {0x00, 0x2F, 0x37, 0xEA}"
    by (simp add: memory_init_def)
  have rom: "kernal_rom ?m (uint address - 0xE000) = 0xEA" if "0xE000 \<le> address"
  proof -
    from that have "0 \<le> uint address - 0xE000" by (simp add: word_le_def)
    then show ?thesis by (rule init_fields)
  qed
  have "memory_read ?m address =
    (if 0xD000 \<le> address \<and> address \<le> 0xDFFF then memory ?m address
     else if 0xE000 \<le> address then kernal_rom ?m (uint address - 0xE000)
     else if 0xA000 \<le> address \<and> address \<le> 0xBFFF then 0xEA
     else memory ?m address)"
    by (subst memory_read_agree) (simp_all only: maps_agree_init init_fields if_True simp_thms)
  with ram rom show ?thesis
    by (simp only: booted_fields split: if_split) blast
qed

lemma booted_step:
  assumes "mem s = mem booted"
  shows "mem (cpu_step s) = mem booted" and "cycles (cpu_step s) = cycles s + 2"
proof -
  have "memory_read (mem s) (cpu_pc s) \<notin> set listed_opcodes"
    using booted_reads [of "cpu_pc s"] by (auto simp: assms listed_opcodes_def)
  from cpu_step_unlisted [OF refl this] assms
  show "mem (cpu_step s) = mem booted" and "cycles (cpu_step s) = cycles s + 2"
    by simp_all
qed

lemma even_cycles_below_max:
  assumes "even (unat (c :: 32 word))"
  shows "c < 0xFFFFFFFF" and "even (unat (c + 2))"
proof -
  have "odd (4294967295 :: nat)" by simp
  with assms have "unat c \<noteq> 4294967295" by metis
  moreover have "unat c < 4294967296" using unsigned_less [of c, where 'a=nat] by simp
  ultimately show "c < 0xFFFFFFFF" by (simp add: word_less_nat_alt)
  have "unat (c + 2) = (unat c + 2) mod 4294967296"
    by (simp add: unat_word_ariths)
  moreover have "even ((unat c + 2) mod 4294967296) = even (unat c + 2)"
    by (rule dvd_mod_iff) simp
  ultimately show "even (unat (c + 2))"
    using assms by simp
qed

lemma cpu_execute_loop_never_returns:
  assumes "cpu_execute_loop target s = Some y"
  shows "\<not> (target = 0xFFFFFFFF \<and> mem s = mem booted \<and> even (unat (cycles s)))"
proof (rule cpu_execute_loop.raw_induct
    [where P = "\<lambda>target s y. \<not> (target = 0xFFFFFFFF \<and> mem s = mem booted
                                   \<and> even (unat (cycles s)))", OF _ assms], goal_cases)
  case (1 loop target s y)
  show ?case
  proof
    assume inv: "target = 0xFFFFFFFF \<and> mem s = mem booted \<and> even (unat (cycles s))"
    then have "cycles s < target"
      using even_cycles_below_max(1) [of "cycles s"] by simp
    with 1(2) have "loop target (cpu_step s) = Some y" by simp
    from 1(1) [OF this]
    have "\<not> (target = 0xFFFFFFFF \<and> mem (cpu_step s) = mem booted
              \<and> even (unat (cycles (cpu_step s))))" .
    moreover from inv have "mem (cpu_step s) = mem booted"
      by (intro booted_step) simp
    moreover from inv have "even (unat (cycles (cpu_step s)))"
      using booted_step(2) [of s] even_cycles_below_max(2) [of "cycles s"] by simp
    ultimately show False using inv by blast
  qed
qed

text \<open>
  Claim C8 says that cpu_execute returns for every \<open>n\<close>, with the counter advanced by
  at least \<open>n\<close>. The counter and the target are 32-bit and wrap. On the booted machine
  every step costs 2 cycles, so the counter stays even and never reaches the target
  \<open>0xFFFFFFFF\<close>: \<open>cpu_execute(0xFFFFFFFF)\<close> does not return. One step later the counter
  is 2, the target \<open>2 + 0xFFFFFFFF\<close> wraps to 1, and \<open>cpu_execute(0xFFFFFFFF)\<close> returns
  at once without a single step.
\<close>

theorem cpu_execute_wrap_counterexample:
  "cpu_execute 0xFFFFFFFF booted = None
   \<and> cycles (cpu_step booted) = 2
   \<and> cpu_execute 0xFFFFFFFF (cpu_step booted) = Some (cpu_step booted)"
proof -
  have "cpu_execute_loop 0xFFFFFFFF booted \<noteq> Some y" for y
    using cpu_execute_loop_never_returns [of "0xFFFFFFFF" booted y] by auto
  then have "cpu_execute_loop 0xFFFFFFFF booted = None"
    by (cases "cpu_execute_loop 0xFFFFFFFF booted") blast+
  then have 1: "cpu_execute 0xFFFFFFFF booted = None"
    by (simp add: cpu_execute_def)
  have 2: "cycles (cpu_step booted) = 2"
    using booted_step(2) [of booted] by simp
  have 3: "cpu_execute 0xFFFFFFFF (cpu_step booted) = Some (cpu_step booted)"
    unfolding cpu_execute_def 2 by (subst cpu_execute_loop.simps) (simp add: 2)
  from 1 2 3 show ?thesis by simp
qed

text \<open>
  Claim C8 as amended. If \<open>cycles + n + 5 < 2^32\<close>, so that neither the target nor a
  step past it wraps the counter, cpu_execute(n) returns: it runs cpu_step some number
  \<open>k\<close> of times, the counter has advanced by less than \<open>n\<close> before each of these steps,
  and when it returns the counter has advanced by at least \<open>n\<close>. The overshoot is less
  than the base cycle cost of the last instruction executed, hence at most 5. Every
  entry of opcode_cycles is at least 2 and at most 6.
\<close>

theorem cpu_execute_returns:
  assumes "unat (cycles s) + unat n + 5 < 2 ^ 32"
  shows "(\<forall>opcode. 2 \<le> opcode_cycles opcode \<and> opcode_cycles opcode \<le> 6)
       \<and> (\<exists>k. cpu_execute n s = Some ((cpu_step ^^ k) s)
              \<and> (\<forall>j<k. unat (cycles ((cpu_step ^^ j) s)) < unat (cycles s) + unat n)
              \<and> unat (cycles s) + unat n \<le> unat (cycles ((cpu_step ^^ k) s))
              \<and> unat (cycles ((cpu_step ^^ k) s)) \<le> unat (cycles s) + unat n + 5
              \<and> (0 < k \<longrightarrow>
                   unat (cycles ((cpu_step ^^ k) s))
                   < unat (cycles s) + unat n
                     + unat (opcode_cycles (memory_read (mem ((cpu_step ^^ (k - 1)) s))
                                                        (cpu_pc ((cpu_step ^^ (k - 1)) s))))))"
proof -
  from assms have t: "unat (cycles s + n) = unat (cycles s) + unat n"
    by (simp add: unat_word_ariths)
  with assms have "unat (cycles s + n) + 5 < 2 ^ 32" by simp
  from cpu_execute_loop_returns [OF this, of s] obtain k where
    k: "cpu_execute_loop (cycles s + n) s = Some ((cpu_step ^^ k) s)"
       "\<forall>j<k. cycles ((cpu_step ^^ j) s) < cycles s + n"
       "cycles s + n \<le> cycles ((cpu_step ^^ k) s)"
       "0 < k \<longrightarrow> unat (cycles ((cpu_step ^^ k) s)) \<le> unat (cycles s + n) + 5"
    by blast
  have bound: "unat (cycles ((cpu_step ^^ k) s)) \<le> unat (cycles s) + unat n + 5"
    using k(4) by (cases "k = 0") (simp_all add: t)
  have last: "unat (cycles ((cpu_step ^^ k) s))
        < unat (cycles s) + unat n
          + unat (opcode_cycles (memory_read (mem ((cpu_step ^^ (k - 1)) s))
                                             (cpu_pc ((cpu_step ^^ (k - 1)) s))))"
    if "0 < k"
  proof -
    let ?p = "(cpu_step ^^ (k - 1)) s"
    from that have pow: "(cpu_step ^^ k) s = cpu_step ?p"
      by (cases k) simp_all
    from that k(2) have before: "unat (cycles ?p) < unat (cycles s) + unat n"
      by (simp add: word_less_nat_alt t)
    with assms have "unat (cycles ?p) + 6 < 2 ^ 32" by simp
    from cpu_step_cycles_exact [OF this] before show ?thesis
      unfolding pow by simp
  qed
  from k(1,2,3) bound last have "cpu_execute n s = Some ((cpu_step ^^ k) s)
      \<and> (\<forall>j<k. unat (cycles ((cpu_step ^^ j) s)) < unat (cycles s) + unat n)
      \<and> unat (cycles s) + unat n \<le> unat (cycles ((cpu_step ^^ k) s))
      \<and> unat (cycles ((cpu_step ^^ k) s)) \<le> unat (cycles s) + unat n + 5
      \<and> (0 < k \<longrightarrow>
           unat (cycles ((cpu_step ^^ k) s))
           < unat (cycles s) + unat n
             + unat (opcode_cycles (memory_read (mem ((cpu_step ^^ (k - 1)) s))
                                                (cpu_pc ((cpu_step ^^ (k - 1)) s)))))"
    by (simp add: cpu_execute_def word_less_nat_alt word_le_nat_alt t)
  then show ?thesis
    using opcode_cycles_bounds by blast
qed

text \<open>Claim C8 as amended, on the booted machine and 3 cycles: two steps, 4 cycles.\<close>

theorem cpu_execute_returns_witness:
  "unat (cycles booted) + unat (3 :: 32 word) + 5 < 2 ^ 32
   \<and> (\<exists>s'. cpu_execute 3 booted = Some s' \<and> 3 \<le> unat (cycles s') \<and> unat (cycles s') \<le> 8)
   \<and> cpu_execute 3 booted = Some (cpu_step (cpu_step booted))
   \<and> cycles (cpu_step (cpu_step booted)) = 4"
proof -
  have h: "unat (cycles booted) + unat (3 :: 32 word) + 5 < 2 ^ 32" by simp
  from cpu_execute_returns [OF h] obtain k where
    "cpu_execute 3 booted = Some ((cpu_step ^^ k) booted)"
    "3 \<le> unat (cycles ((cpu_step ^^ k) booted))"
    "unat (cycles ((cpu_step ^^ k) booted)) \<le> 8"
    by auto
  then have 1: "\<exists>s'. cpu_execute 3 booted = Some s' \<and> 3 \<le> unat (cycles s') \<and> unat (cycles s') \<le> 8"
    by blast
  have c1: "cycles (cpu_step booted) = 2" "mem (cpu_step booted) = mem booted"
    using booted_step [of booted] by simp_all
  have c2: "cycles (cpu_step (cpu_step booted)) = 4"
    using booted_step(2) [of "cpu_step booted"] c1 by simp
  have 2: "cpu_execute 3 booted = Some (cpu_step (cpu_step booted))"
    unfolding cpu_execute_def
    by (subst cpu_execute_loop.simps, simp, subst cpu_execute_loop.simps, simp add: c1,
        subst cpu_execute_loop.simps, simp add: c2)
  from h 1 2 c2 show ?thesis by simp
qed

section \<open>What every reachable state has\<close>

text \<open>
  The stack page stays in \<open>memory\<close>: update_memory_maps always points page 1 there, and
  nothing else writes the table.
\<close>

lemma stack_in_ram_write: "stack_in_ram m \<Longrightarrow> stack_in_ram (memory_write address v m)"
  by (auto simp: memory_write_def Let_def) (simp_all add: stack_in_ram_def)

lemma branch_mem [simp]: "mem (fst (branch taken address sz s)) = mem s"
  by (simp add: branch_def)

lemma stack_in_ram_step:
  assumes "stack_in_ram (mem s)"
  shows "stack_in_ram (mem (cpu_step s))"
proof -
  have "stack_in_ram (mem (fst (cpu_step_switch opcode address sz s)))" for opcode address sz
    using assms
    by (simp add: cpu_step_switch_def Let_def split_beta push_word_fields stack_in_ram_write)
  then show ?thesis
    by (simp add: cpu_step_def Let_def split_beta)
qed

lemma stack_in_ram_steps: "stack_in_ram (mem s) \<Longrightarrow> stack_in_ram (mem ((cpu_step ^^ k) s))"
  by (induction k) (simp_all add: stack_in_ram_step)

text \<open>
  The page table agrees with the flags after memory_init and any sequence of
  memory_read, memory_write and memory_load in which no load covers \<open>$0001\<close>; there a
  write into an enabled ROM region is followed by a read of the ROM byte.
\<close>

lemma update_memory_maps_flags:
  assumes "basic_rom_enabled m' = basic_rom_enabled m"
    and "kernal_rom_enabled m' = kernal_rom_enabled m"
    and "io_enabled m' = io_enabled m"
    and "\<not> io_enabled m \<Longrightarrow> char_rom_enabled m' = char_rom_enabled m"
  shows "memory_read_map (update_memory_maps m') p = memory_read_map (update_memory_maps m) p"
  using assms unfolding memory_read_map_update by auto

lemma maps_agree_ops:
  assumes "\<forall>op \<in> set ops. \<not> loads_port op"
  shows "maps_agree (fold do_memory_op ops (memory_init s0))"
proof -
  define inv :: "memory_state \<Rightarrow> bool" where "inv m =
     (maps_agree m
      \<and> kernal_rom_enabled m = (memory m 0x0001 AND 0x02 \<noteq> 0)
      \<and> basic_rom_enabled m = (memory m 0x0001 AND 0x03 \<noteq> 0)
      \<and> io_enabled m = (memory m 0x0001 AND 0x04 \<noteq> 0)
      \<and> (\<not> io_enabled m \<longrightarrow> char_rom_enabled m = (memory m 0x0001 AND 0x03 \<noteq> 0)))" for m
  have init: "inv (memory_init s0)"
    by (simp add: inv_def)
  have bits: "(v AND 0x02 \<noteq> 0) = (w AND 0x02 \<noteq> 0) \<and> (v AND 0x03 \<noteq> 0) = (w AND 0x03 \<noteq> 0)
              \<and> (v AND 0x04 \<noteq> 0) = (w AND 0x04 \<noteq> 0)"
    if "v AND 0x07 = w AND 0x07" for v w :: "8 word"
  proof -
    have "bit (v AND 7) n = bit (w AND 7) n" for n using that by simp
    from this [of 0] this [of 1] this [of 2] have "bit v 0 = bit w 0" "bit v 1 = bit w 1" "bit v 2 = bit w 2"
      by (simp_all add: bit_and_iff)
    then show ?thesis by (simp add: and_2_bit and_3_bit and_4_bit)
  qed
  have step: "inv (do_memory_op op m)" if "inv m" "\<not> loads_port op" for op m
  proof (cases op)
    case (Memory_read address)
    with that show ?thesis by simp
  next
    case (Memory_write address v)
    show ?thesis
    proof (cases "address = 0x0001")
      case True
      show ?thesis
      proof (cases "memory m 0x0001 AND 0x07 = v AND 0x07")
        case same: True
        let ?m' = "memory_write 0x0001 v m"
        from bits [OF same] that(1) have m': "?m' = m\<lparr>memory := (memory m)(0x0001 := v),
            char_rom_enabled := (v AND 0x04 = 0 \<and> v AND 0x03 \<noteq> 0)\<rparr>"
          by (simp add: write_port Let_def same inv_def)
        have flags: "kernal_rom_enabled ?m' = (v AND 0x02 \<noteq> 0)"
            "basic_rom_enabled ?m' = (v AND 0x03 \<noteq> 0)" "io_enabled ?m' = (v AND 0x04 \<noteq> 0)"
            "char_rom_enabled ?m' = (v AND 0x04 = 0 \<and> v AND 0x03 \<noteq> 0)"
            "memory ?m' 0x0001 = v"
          by (simp_all add: write_port Let_def)
        have "memory_read_map (update_memory_maps ?m') p = memory_read_map (update_memory_maps m) p" for p
          using bits [OF same] that(1)
          by (intro update_memory_maps_flags) (simp_all add: flags inv_def)
        moreover have "memory_read_map ?m' = memory_read_map m"
          by (simp add: m')
        ultimately have "maps_agree ?m'"
          using that(1) by (simp add: maps_agree_def inv_def)
        then show ?thesis
          unfolding Memory_write True inv_def do_memory_op.simps by (simp add: flags)
      next
        case False
        then show ?thesis
          unfolding Memory_write True by (simp add: inv_def write_port Let_def)
      qed
    next
      case False
      with that show ?thesis
        unfolding Memory_write by (auto simp: inv_def memory_write_elsewhere)
    qed
  next
    case (Memory_load address data len)
    with that show ?thesis
      by (simp add: inv_def load_spares_port)
  qed
  have "inv (fold do_memory_op ops (memory_init s0))"
    using assms
  proof (induction ops rule: rev_induct)
    case Nil
    then show ?case using init by simp
  next
    case (snoc op ops)
    then show ?case by (simp add: step)
  qed
  then show ?thesis by (simp add: inv_def)
qed

lemma rom_read_after_write_ops:
  assumes "\<forall>op \<in> set ops. \<not> loads_port op" and "m = fold do_memory_op ops (memory_init s0)"
  shows "basic_rom_enabled m \<and> 0xA000 \<le> addr \<and> addr \<le> 0xBFFF \<Longrightarrow>
           memory_write addr v m = m
           \<and> memory_read (memory_write addr v m) addr = basic_rom m (uint addr - 0xA000)"
    and "kernal_rom_enabled m \<and> 0xE000 \<le> addr \<and> addr \<le> 0xFFFF \<Longrightarrow>
           memory_write addr v m = m
           \<and> memory_read (memory_write addr v m) addr = kernal_rom m (uint addr - 0xE000)"
proof -
  have "maps_agree m"
    unfolding assms(2) using assms(1) by (rule maps_agree_ops)
  then show "basic_rom_enabled m \<and> 0xA000 \<le> addr \<and> addr \<le> 0xBFFF \<Longrightarrow>
           memory_write addr v m = m
           \<and> memory_read (memory_write addr v m) addr = basic_rom m (uint addr - 0xA000)"
    and "kernal_rom_enabled m \<and> 0xE000 \<le> addr \<and> addr \<le> 0xFFFF \<Longrightarrow>
           memory_write addr v m = m
           \<and> memory_read (memory_write addr v m) addr = kernal_rom m (uint addr - 0xE000)"
    using rom_read_after_write [of m addr v] by (simp_all add: rom_write_discarded)
qed

end
